theory Spec2Isabelle
  imports Complex_Main "HOL-Library.Sublist"
begin

section \<open>Values of the fixture scripts\<close>

text \<open>
  The two scripts (\<^verbatim>\<open>testcases/wildcard_index_query.js\<close> and its older sibling, which
  carries the helpers \<^verbatim>\<open>getNFieldNames\<close>, \<^verbatim>\<open>getNFieldNamesAtGivenDepth\<close> and
  \<^verbatim>\<open>setDottedFieldToValue\<close>) build plain JavaScript values: \<^verbatim>\<open>undefined\<close>, \<^verbatim>\<open>null\<close>,
  booleans, numbers, strings, arrays and objects.

  An object is the list of its own properties in insertion order, the order in which
  JavaScript enumerates keys that are not array indices (it enumerates array indices
  first, in numeric order; the results below read objects by key, not by position).
  \<open>JObj\<close> is an object with the prototype every object literal has; \<open>JObjP p kvs\<close> is an object whose prototype has
  been replaced by the value \<open>p\<close>, which is what an assignment to \<^verbatim>\<open>__proto__\<close> does.
  Values are trees: one object held in two places is outside these values.

  Numbers are the integer-valued doubles the scripts compute with; \<open>JNum n\<close> stands for
  the double \<open>n\<close>, and addition and subtraction round as doubles do (section below).
\<close>

datatype jsval =
    JUndef
  | JNull
  | JBool bool
  | JNum int
  | JStr string
  | JArr "jsval list"
  | JObj "(string \<times> jsval) list"
  | JObjP jsval "(string \<times> jsval) list"

text \<open>The \<^verbatim>\<open>typeof\<close> operator on these values; \<^verbatim>\<open>typeof null\<close> is \<^verbatim>\<open>"object"\<close>.\<close>

fun typeof :: "jsval \<Rightarrow> string" where
  "typeof JUndef = ''undefined''"
| "typeof JNull = ''object''"
| "typeof (JBool b) = ''boolean''"
| "typeof (JNum n) = ''number''"
| "typeof (JStr s) = ''string''"
| "typeof (JArr xs) = ''object''"
| "typeof (JObj kvs) = ''object''"
| "typeof (JObjP p kvs) = ''object''"

text \<open>An own property of an object: the bound value, or \<^verbatim>\<open>undefined\<close> when absent.\<close>

fun getField :: "(string \<times> jsval) list \<Rightarrow> string \<Rightarrow> jsval" where
  "getField [] k = JUndef"
| "getField ((k', v) # kvs) k = (if k' = k then v else getField kvs k)"

text \<open>
  Defining or overwriting an own property: an existing key keeps its place, a new key
  goes to the end.
\<close>

fun setField :: "(string \<times> jsval) list \<Rightarrow> string \<Rightarrow> jsval \<Rightarrow> (string \<times> jsval) list" where
  "setField [] k v = [(k, v)]"
| "setField ((k', v') # kvs) k v =
     (if k' = k then (k, v) # kvs else (k', v') # setField kvs k v)"

text \<open>
  What a run can stop with: a failed \<^verbatim>\<open>assert\<close>; the \<^verbatim>\<open>TypeError\<close> of a property
  access on \<^verbatim>\<open>undefined\<close> or \<^verbatim>\<open>null\<close>; and \<open>Unmodelled\<close>, where the code goes on
  with something these values cannot hold (a built-in prototype, a property inherited
  from a replaced prototype, an array with named properties or holes).
\<close>

datatype error =
    AssertionFailed
  | TypeError
  | Unmodelled

section \<open>Numbers\<close>

text \<open>
  A double holds an integer exactly up to \<open>2 ^ 53\<close>; a larger magnitude keeps its 53
  leading bits, rounded to nearest, ties to even. \<open>dropBits m\<close> is the number of low
  bits the magnitude \<open>m\<close> loses. Sums beyond the largest double are outside the model.
\<close>

function dropBits :: "nat \<Rightarrow> nat" where
  "dropBits m = (if m < 2 ^ 53 then 0 else Suc (dropBits (m div 2)))"
  by pat_completeness auto
termination
  by (relation "measure (\<lambda>m. m)") auto

declare dropBits.simps [simp del]

definition roundMag :: "nat \<Rightarrow> nat" where
  "roundMag m =
     (let e = dropBits m; q = m div 2 ^ e; r = m mod 2 ^ e
      in (if 2 ^ e < 2 * r \<or> (2 * r = 2 ^ e \<and> odd q) then q + 1 else q) * 2 ^ e)"

definition round53 :: "int \<Rightarrow> int" where
  "round53 x = sgn x * int (roundMag (nat \<bar>x\<bar>))"

text \<open>\<^verbatim>\<open>a + b\<close> and \<^verbatim>\<open>a - b\<close> on numbers.\<close>

definition js_add :: "int \<Rightarrow> int \<Rightarrow> int" where
  "js_add a b = round53 (a + b)"

definition js_sub :: "int \<Rightarrow> int \<Rightarrow> int" where
  "js_sub a b = round53 (a - b)"

section \<open>Property access\<close>

text \<open>
  A property key addresses an array element when it is the decimal numeral, without
  leading zeros, of a number below \<open>2 ^ 32 - 1\<close>.
\<close>

definition digitsValue :: "string \<Rightarrow> nat" where
  "digitsValue k = foldl (\<lambda>n c. 10 * n + (of_char c - 48)) 0 k"

definition arrayIndex :: "string \<Rightarrow> nat option" where
  "arrayIndex k =
     (if k = [] then None
      else if hd k = CHR ''0'' then (if tl k = [] then Some 0 else None)
      else if list_all (\<lambda>c. c \<in> set ''0123456789'') k \<and> digitsValue k < 2 ^ 32 - 1
           then Some (digitsValue k)
      else None)"

text \<open>
  Every object inherits the accessor \<^verbatim>\<open>__proto__\<close> from \<^verbatim>\<open>Object.prototype\<close>, unless
  its prototype chain ends in \<^verbatim>\<open>null\<close> or an object on the chain has an own property
  of that name. \<open>inheritsProtoAccessor p\<close> says whether a look-up that starts at the
  prototype \<open>p\<close> finds the accessor.
\<close>

fun inheritsProtoAccessor :: "jsval \<Rightarrow> bool" where
  "inheritsProtoAccessor (JArr xs) = True"
| "inheritsProtoAccessor (JObj kvs) = (''__proto__'' \<notin> fst ` set kvs)"
| "inheritsProtoAccessor (JObjP p kvs) = (''__proto__'' \<notin> fst ` set kvs \<and> inheritsProtoAccessor p)"
| "inheritsProtoAccessor v = False"

text \<open>
  The assignment \<^verbatim>\<open>target[k] = v\<close> on a target that is an object or a primitive. On an
  object it defines an own property, except for the inherited accessor \<^verbatim>\<open>__proto__\<close>,
  whose setter replaces the prototype when \<open>v\<close> is an object or \<^verbatim>\<open>null\<close> and does
  nothing otherwise. On a boolean, number or string the assignment is ignored (the
  scripts do not run in strict mode).
\<close>

fun assign :: "jsval \<Rightarrow> string \<Rightarrow> jsval \<Rightarrow> jsval" where
  "assign (JObj kvs) k v =
     (if k = ''__proto__'' \<and> k \<notin> fst ` set kvs
      then (if typeof v = ''object'' then JObjP v kvs else JObj kvs)
      else JObj (setField kvs k v))"
| "assign (JObjP p kvs) k v =
     (if k = ''__proto__'' \<and> k \<notin> fst ` set kvs \<and> inheritsProtoAccessor p
      then (if typeof v = ''object'' then JObjP v kvs else JObjP p kvs)
      else JObjP p (setField kvs k v))"
| "assign target k v = target"

text \<open>
  \<^verbatim>\<open>target[k] = v\<close> on any target. On \<^verbatim>\<open>undefined\<close> and \<^verbatim>\<open>null\<close> it throws. On an
  array it sets an element or appends one; other writes into an array leave the values
  modelled here.
\<close>

fun setProp :: "jsval \<Rightarrow> string \<Rightarrow> jsval \<Rightarrow> error + jsval" where
  "setProp JUndef k v = Inl TypeError"
| "setProp JNull k v = Inl TypeError"
| "setProp (JArr xs) k v =
     (case arrayIndex k of
        Some i \<Rightarrow>
          (if i < length xs then Inr (JArr (xs[i := v]))
           else if i = length xs then Inr (JArr (xs @ [v]))
           else Inl Unmodelled)
      | None \<Rightarrow>
          (if k = ''__proto__'' \<and> typeof v \<noteq> ''object'' then Inr (JArr xs) else Inl Unmodelled))"
| "setProp target k v = Inr (assign target k v)"

text \<open>
  Reading \<^verbatim>\<open>target[k]\<close>. On \<^verbatim>\<open>undefined\<close> and \<^verbatim>\<open>null\<close> it throws. An own
  property of an object and an element of an array are read as they are. A name that an
  object literal does not own is looked up in \<^verbatim>\<open>Object.prototype\<close>, which holds
  functions only: the code gets a function or \<^verbatim>\<open>undefined\<close>, the model
  \<^verbatim>\<open>undefined\<close>; \<^verbatim>\<open>setDottedFieldToValue\<close>, the only reader, tests the value for
  \<^verbatim>\<open>typeof ... !== "object"\<close>, true of both, and then overwrites the property.
  Everything else is not followed: the accessor \<^verbatim>\<open>__proto__\<close>, a property found
  through a replaced prototype, the properties of numbers, booleans and strings, and the
  named properties of arrays.
\<close>

fun getProp :: "jsval \<Rightarrow> string \<Rightarrow> error + jsval" where
  "getProp JUndef k = Inl TypeError"
| "getProp JNull k = Inl TypeError"
| "getProp (JBool b) k = Inl Unmodelled"
| "getProp (JNum n) k = Inl Unmodelled"
| "getProp (JStr s) k = Inl Unmodelled"
| "getProp (JArr xs) k =
     (case arrayIndex k of
        Some i \<Rightarrow> Inr (if i < length xs then xs ! i else JUndef)
      | None \<Rightarrow> Inl Unmodelled)"
| "getProp (JObj kvs) k =
     (if k = ''__proto__'' \<and> k \<notin> fst ` set kvs then Inl Unmodelled else Inr (getField kvs k))"
| "getProp (JObjP p kvs) k =
     (if k \<in> fst ` set kvs then Inr (getField kvs k) else Inl Unmodelled)"

text \<open>
  A child object that the code has changed in place is still the value of the property
  it was read from; with values as trees, the parent takes the changed child.
\<close>

fun replaceOwn :: "jsval \<Rightarrow> string \<Rightarrow> jsval \<Rightarrow> jsval" where
  "replaceOwn (JObj kvs) k c = JObj (setField kvs k c)"
| "replaceOwn (JObjP p kvs) k c = JObjP p (setField kvs k c)"
| "replaceOwn (JArr xs) k c = (case arrayIndex k of Some i \<Rightarrow> JArr (xs[i := c]) | None \<Rightarrow> JArr xs)"
| "replaceOwn target k c = target"

section \<open>Number to string conversion\<close>

text \<open>
  \<^verbatim>\<open>"field-" + i\<close> appends the decimal digits of the loop counter, a natural number.
\<close>

definition digit_char :: "nat \<Rightarrow> char" where
  "digit_char d = ''0123456789'' ! d"

fun string_of_nat :: "nat \<Rightarrow> string" where
  "string_of_nat n =
     (if n < 10 then [digit_char n] else string_of_nat (n div 10) @ [digit_char (n mod 10)])"

declare string_of_nat.simps [simp del]

section \<open>Field-name synthesis\<close>

text \<open>
  \<^verbatim>\<open>
  function getNFieldNames(numFields) {
      var fieldNames = [];
      for (var i = 0; i < numFields; i++) { fieldNames.push("field-" + i); }
      return fieldNames;
  }
  \<close>
\<close>

definition getNFieldNames :: "int \<Rightarrow> string list" where
  "getNFieldNames numFields =
     map (\<lambda>i. ''field-'' @ string_of_nat i) [0..<nat numFields]"

text \<open>
  The first loop of \<^verbatim>\<open>getNFieldNamesAtGivenDepth\<close>: a dot before every segment but
  the first, then \<^verbatim>\<open>"subObj-" + i\<close>.
\<close>

definition pathPrefix :: "int \<Rightarrow> string" where
  "pathPrefix depth =
     foldl (\<lambda>acc i. (if 0 < i then acc @ ''.'' else acc) @ ''subObj-'' @ string_of_nat i)
       '''' [0..<nat depth]"

text \<open>
  The second loop rewrites every name in place as
  \<^verbatim>\<open>pathPrefix + "." + fieldNames[j]\<close>; the dot is added whatever the depth.
\<close>

definition getNFieldNamesAtGivenDepth :: "int \<Rightarrow> int \<Rightarrow> string list" where
  "getNFieldNamesAtGivenDepth nFields depth =
     map (\<lambda>name. pathPrefix depth @ ''.'' @ name) (getNFieldNames nFields)"

text \<open>The segment names the synthesis is meant to produce.\<close>

definition subObjName :: "nat \<Rightarrow> string" where
  "subObjName i = ''subObj-'' @ string_of_nat i"

definition fieldName :: "nat \<Rightarrow> string" where
  "fieldName i = ''field-'' @ string_of_nat i"

section \<open>Dotted paths\<close>

text \<open>
  \<^verbatim>\<open>path.split(".")\<close>: the segments between the dots. The result is never empty; the
  empty string splits into one empty segment.
\<close>

fun split_dot :: "string \<Rightarrow> string list" where
  "split_dot [] = [[]]"
| "split_dot (c # cs) =
     (if c = CHR ''.'' then [] # split_dot cs
      else (c # hd (split_dot cs)) # tl (split_dot cs))"

lemma split_dot_not_Nil: "split_dot p \<noteq> []"
  by (cases p) simp_all

lemma split_dot_several_nonempty: "length (split_dot p) \<noteq> Suc 0 \<Longrightarrow> 0 < length p"
  by (cases p) simp_all

text \<open>
  \<^verbatim>\<open>
  function setDottedFieldToValue(object, path, value) {
      if (typeof path === "string") {
          var fields = path.split(".");
          if (fields.length == 1) {
              object[path] = value;
          } else {
              if (typeof(object[fields[0]]) !== "object") {
                  object[fields[0]] = {};
              }
              setDottedFieldToValue(
                  object[fields[0]], path.slice(fields[0].length + 1, path.length), value);
          }
      }
      return object;
  }
  \<close>
  The object is passed in and handed back updated. After the guard the code reads
  \<^verbatim>\<open>object[fields[0]]\<close> again and works on that child in place; the parent then holds
  the changed child under the same key. A property access on \<^verbatim>\<open>null\<close> or
  \<^verbatim>\<open>undefined\<close> throws, and \<^verbatim>\<open>null\<close> passes the guard, its \<^verbatim>\<open>typeof\<close> being
  \<^verbatim>\<open>"object"\<close>.
\<close>

function setDottedFieldToValue :: "jsval \<Rightarrow> jsval \<Rightarrow> jsval \<Rightarrow> error + jsval" where
  "setDottedFieldToValue object (JStr path) val =
     (let fields = split_dot path in
      if length fields = 1 then setProp object path val
      else
        (case getProp object (hd fields) of
           Inl e \<Rightarrow> Inl e
         | Inr cur \<Rightarrow>
             (case (if typeof cur \<noteq> ''object'' then setProp object (hd fields) (JObj [])
                    else Inr object) of
                Inl e \<Rightarrow> Inl e
              | Inr object1 \<Rightarrow>
                  (case getProp object1 (hd fields) of
                     Inl e \<Rightarrow> Inl e
                   | Inr child \<Rightarrow>
                       (case setDottedFieldToValue child
                               (JStr (drop (length (hd fields) + 1) path)) val of
                          Inl e \<Rightarrow> Inl e
                        | Inr child' \<Rightarrow> Inr (replaceOwn object1 (hd fields) child'))))))"
| "setDottedFieldToValue object JUndef val = Inr object"
| "setDottedFieldToValue object JNull val = Inr object"
| "setDottedFieldToValue object (JBool b) val = Inr object"
| "setDottedFieldToValue object (JNum n) val = Inr object"
| "setDottedFieldToValue object (JArr xs) val = Inr object"
| "setDottedFieldToValue object (JObj kvs) val = Inr object"
| "setDottedFieldToValue object (JObjP p kvs) val = Inr object"
  by pat_completeness auto
termination
  by (relation "measure (\<lambda>(object, path, val). case path of JStr p \<Rightarrow> length p | _ \<Rightarrow> 0)")
     (auto dest!: split_dot_several_nonempty)

declare setDottedFieldToValue.simps(1) [simp del]

text \<open>A loop whose body can fail stops at the first failure.\<close>

fun foldE :: "('a \<Rightarrow> 's \<Rightarrow> error + 's) \<Rightarrow> 'a list \<Rightarrow> 's \<Rightarrow> error + 's" where
  "foldE f [] s = Inr s"
| "foldE f (x # xs) s = (case f x s of Inl e \<Rightarrow> Inl e | Inr s' \<Rightarrow> foldE f xs s')"

section \<open>The collection\<close>

text \<open>
  The scripts use three operations of a collection: \<^verbatim>\<open>drop()\<close>, \<^verbatim>\<open>insert(doc)\<close> and
  \<^verbatim>\<open>createIndex(spec, options)\<close>. A collection is the documents inserted and the
  indexes created, each in order. Whether the store accepts an index lies outside the
  scripts, so it is a parameter \<open>accepts\<close>; \<^verbatim>\<open>assert.commandWorked\<close> fails on a
  rejected index.
\<close>

record collection =
  docs :: "jsval list"
  indexes :: "(jsval \<times> jsval) list"

definition dropCollection :: "collection \<Rightarrow> collection" where
  "dropCollection c = \<lparr>docs = [], indexes = []\<rparr>"

definition insertDoc :: "jsval \<Rightarrow> collection \<Rightarrow> collection" where
  "insertDoc d c = c\<lparr>docs := docs c @ [d]\<rparr>"

definition createIndexChecked ::
  "(jsval \<Rightarrow> jsval \<Rightarrow> bool) \<Rightarrow> jsval \<Rightarrow> jsval \<Rightarrow> collection \<Rightarrow> error + collection" where
  "createIndexChecked accepts spec opts c =
     (if accepts spec opts then Inr (c\<lparr>indexes := indexes c @ [(spec, opts)]\<rparr>)
      else Inl AssertionFailed)"

text \<open>A store that accepts every index, for evaluating the setup functions.\<close>

definition acceptAll :: "jsval \<Rightarrow> jsval \<Rightarrow> bool" where
  "acceptAll spec opts = True"

section \<open>Document generators of wildcard_index_query.js\<close>

text \<open>
  Each builder asserts a non-empty field list and then returns a function from a seed to
  a document.
  \<^verbatim>\<open>
  function getMultiFieldPathToIntegerDocumentGenerator(fieldList) {
      assert(fieldList.length > 0);
      return function(seed) {
          var doc = {};
          for (var j = 0; j < fieldList.length; ++j) {
              setDottedFieldToValue(doc, fieldList[j], seed);
          }
          return doc;
      };
  }
  \<close>
\<close>

definition getMultiFieldPathToIntegerDocumentGenerator ::
  "string list \<Rightarrow> error + (int \<Rightarrow> error + jsval)" where
  "getMultiFieldPathToIntegerDocumentGenerator fieldList =
     (if 0 < length fieldList then
        Inr (\<lambda>seed.
          foldE (\<lambda>f doc. setDottedFieldToValue doc (JStr f) (JNum seed)) fieldList (JObj []))
      else Inl AssertionFailed)"

text \<open>
  \<^verbatim>\<open>Math.ceil(arraySize / 2)\<close> on an integer; halving a double and rounding it up to
  an integer are both exact.
\<close>

definition ceil_half :: "int \<Rightarrow> int" where
  "ceil_half a = - ((- a) div 2)"

text \<open>
  \<^verbatim>\<open>
  function getTopLevelArrayMultiFieldDocumentGenerator(fieldList, arraySize) {
      assert(fieldList.length > 0);
      return function(seed) {
          var valueList = [];
          var value = seed - Math.ceil(arraySize / 2);
          for (var j = 0; j < arraySize; ++j) { valueList.push(value++); }
          var doc = {};
          for (var k = 0; k < fieldList.length; ++k) { doc[fieldList[k]] = valueList; }
          return doc;
      };
  }
  \<close>
\<close>

text \<open>
  The loop \<^verbatim>\<open>valueList.push(value++)\<close>, run \<open>n\<close> times from \<open>value\<close>; the
  increment is a sum of doubles. The loop counter \<^verbatim>\<open>j\<close> stays below the length of an
  array, where counting is exact.
\<close>

fun countUp :: "int \<Rightarrow> nat \<Rightarrow> int list" where
  "countUp v 0 = []"
| "countUp v (Suc n) = v # countUp (js_add v 1) n"

definition getTopLevelArrayMultiFieldDocumentGenerator ::
  "string list \<Rightarrow> int \<Rightarrow> error + (int \<Rightarrow> error + jsval)" where
  "getTopLevelArrayMultiFieldDocumentGenerator fieldList arraySize =
     (if 0 < length fieldList then
        Inr (\<lambda>seed.
          let val = js_sub seed (ceil_half arraySize);
              valueList = map JNum (countUp val (nat arraySize))
          in Inr (foldl (\<lambda>doc f. assign doc f (JArr valueList)) (JObj []) fieldList))
      else Inl AssertionFailed)"

text \<open>
  The remainder operator \<^verbatim>\<open>%\<close> of JavaScript takes the sign of the dividend, and an
  array read outside the array gives \<^verbatim>\<open>undefined\<close>, which as a property key is the
  string \<^verbatim>\<open>"undefined"\<close>.
\<close>

definition js_rem :: "int \<Rightarrow> int \<Rightarrow> int" where
  "js_rem a b = sgn a * (\<bar>a\<bar> mod \<bar>b\<bar>)"

definition keyAt :: "string list \<Rightarrow> int \<Rightarrow> string" where
  "keyAt fieldList i =
     (if 0 \<le> i \<and> i < int (length fieldList) then fieldList ! nat i else ''undefined'')"

text \<open>
  \<^verbatim>\<open>
  function getTopLevelArraySingleFieldPerDocumentGenerator(fieldList, arraySize) {
      assert(fieldList.length > 0);
      return function(seed) {
          var value = [];
          for (var j = 0; j < arraySize; ++j) { value.push(j); }
          var doc = {};
          var currentFieldIndex = seed % fieldList.length;
          doc[fieldList[currentFieldIndex]] = value;
          return doc;
      };
  }
  \<close>
\<close>

definition getTopLevelArraySingleFieldPerDocumentGenerator ::
  "string list \<Rightarrow> int \<Rightarrow> error + (int \<Rightarrow> error + jsval)" where
  "getTopLevelArraySingleFieldPerDocumentGenerator fieldList arraySize =
     (if 0 < length fieldList then
        Inr (\<lambda>seed.
          let val = map (\<lambda>j. JNum (int j)) [0..<nat arraySize];
              currentFieldIndex = js_rem seed (int (length fieldList))
          in Inr (assign (JObj []) (keyAt fieldList currentFieldIndex) (JArr val)))
      else Inl AssertionFailed)"

text \<open>
  \<^verbatim>\<open>
  function populateCollection(docGenerator, collection, count) {
      for (var i = 0; i < count; ++i) { collection.insert(docGenerator(i)); }
  }
  \<close>
\<close>

definition populateCollection ::
  "(int \<Rightarrow> error + jsval) \<Rightarrow> collection \<Rightarrow> int \<Rightarrow> error + collection" where
  "populateCollection docGenerator c count =
     foldE (\<lambda>i c'. case docGenerator (int i) of Inl e \<Rightarrow> Inl e | Inr d \<Rightarrow> Inr (insertDoc d c'))
       [0..<nat count] c"

section \<open>Document generators of the sibling script\<close>

text \<open>
  The sibling script has the same three builders in an older shape: the function returned
  takes the collection and inserts \<open>documentCount\<close> documents itself. Where a name is
  used by both scripts, the sibling's definition carries the suffix \<open>_sib\<close>.
  \<^verbatim>\<open>
  function getDocumentGenerator(fieldList, documentCount) {
      assert(fieldList.length > 0);
      return function(collection) {
          for (var i = 0; i < documentCount; ++i) {
              var doc = {};
              for (var j = 0; j < fieldList.length; ++j) {
                  setDottedFieldToValue(doc, fieldList[j], i);
              }
              collection.insert(doc);
          }
      };
  }
  \<close>
\<close>

definition getDocumentGenerator ::
  "string list \<Rightarrow> int \<Rightarrow> error + (collection \<Rightarrow> error + collection)" where
  "getDocumentGenerator fieldList documentCount =
     (if 0 < length fieldList then
        Inr (foldE (\<lambda>i c.
               case foldE (\<lambda>f doc. setDottedFieldToValue doc (JStr f) (JNum (int i)))
                      fieldList (JObj []) of
                 Inl e \<Rightarrow> Inl e
               | Inr doc \<Rightarrow> Inr (insertDoc doc c))
             [0..<nat documentCount])
      else Inl AssertionFailed)"

text \<open>
  The loop \<^verbatim>\<open>for (var j = lo; j < hi; j += 10) value.push(j)\<close> of the sibling's array
  generator, with exact sums: the generator below runs it only where every number it
  meets is at most \<open>2 ^ 53\<close> in magnitude.
\<close>

function stepsOfTen :: "int \<Rightarrow> int \<Rightarrow> int list" where
  "stepsOfTen j hi = (if j < hi then j # stepsOfTen (j + 10) hi else [])"
  by pat_completeness auto
termination
  by (relation "measure (\<lambda>(j, hi). nat (hi - j))") auto

declare stepsOfTen.simps [simp del]

text \<open>
  \<^verbatim>\<open>
  function getTopLevelArrayDocumentGenerator(fieldList, documentCount, arraySize) {
      assert(fieldList.length > 0);
      return function(collection) {
          for (var i = 0; i < documentCount; ++i) {
              var value = [];
              var offset = arraySize * 10 / 2;
              for (var j = i - offset; j < i + offset; j += 10) { value.push(j); }
              var doc = {};
              for (var k = 0; k < fieldList.length; ++k) { doc[fieldList[k]] = value; }
              collection.insert(doc);
          }
      };
  }
  \<close>
\<close>

definition getTopLevelArrayDocumentGenerator ::
  "string list \<Rightarrow> int \<Rightarrow> int \<Rightarrow> error + (collection \<Rightarrow> error + collection)" where
  "getTopLevelArrayDocumentGenerator fieldList documentCount arraySize =
     (if 0 < length fieldList then
        Inr (foldE (\<lambda>i c.
               let offset = arraySize * 10 div 2;
                   val = map JNum (stepsOfTen (int i - offset) (int i + offset))
               in if \<bar>offset\<bar> + int i + 10 \<le> 2 ^ 53
                  then Inr (insertDoc
                         (foldl (\<lambda>doc f. assign doc f (JArr val)) (JObj []) fieldList) c)
                  else Inl Unmodelled)
             [0..<nat documentCount])
      else Inl AssertionFailed)"

text \<open>
  \<^verbatim>\<open>
  function getTopLevelArraySingleFieldPerDocumentGenerator(fieldList, documentCount, arraySize) {
      assert(fieldList.length > 0);
      return function(collection) {
          var currentFieldIndex = 0;
          for (var i = 0; i < documentCount; ++i) {
              var value = [];
              for (var j = 0; j < arraySize; ++j) { value.push(j); }
              var doc = {};
              doc[fieldList[currentFieldIndex]] = value;
              collection.insert(doc);
              currentFieldIndex = (currentFieldIndex + 1) % fieldList.length;
          }
      };
  }
  \<close>
  The loop carries the collection and \<open>currentFieldIndex\<close>.
\<close>

fun rotateInsert :: "string list \<Rightarrow> int \<Rightarrow> nat \<Rightarrow> collection \<times> int \<Rightarrow> collection \<times> int" where
  "rotateInsert fieldList arraySize 0 (c, currentFieldIndex) = (c, currentFieldIndex)"
| "rotateInsert fieldList arraySize (Suc n) (c, currentFieldIndex) =
     rotateInsert fieldList arraySize n
       (insertDoc (assign (JObj []) (keyAt fieldList currentFieldIndex)
                     (JArr (map (\<lambda>j. JNum (int j)) [0..<nat arraySize]))) c,
        js_rem (currentFieldIndex + 1) (int (length fieldList)))"

definition getTopLevelArraySingleFieldPerDocumentGenerator_sib ::
  "string list \<Rightarrow> int \<Rightarrow> int \<Rightarrow> error + (collection \<Rightarrow> error + collection)" where
  "getTopLevelArraySingleFieldPerDocumentGenerator_sib fieldList documentCount arraySize =
     (if 0 < length fieldList then
        Inr (\<lambda>c. Inr (fst (rotateInsert fieldList arraySize (nat documentCount) (c, 0))))
      else Inl AssertionFailed)"

section \<open>Setup functions\<close>

text \<open>
  \<^verbatim>\<open>
  function getSetupFunctionForTargetedIndex(fieldsToIndex, documentGenerator, documentCount) {
      return function(collection) {
          collection.drop();
          populateCollection(documentGenerator, collection, documentCount);
          for (var i = 0; i < fieldsToIndex.length; ++i) {
              var indexSpec = {};
              indexSpec[fieldsToIndex[i]] = 1;
              assert.commandWorked(collection.createIndex(indexSpec, {sparse: true}));
          }
      };
  }
  \<close>
\<close>

definition createTargetedIndexes ::
  "(jsval \<Rightarrow> jsval \<Rightarrow> bool) \<Rightarrow> string list \<Rightarrow> collection \<Rightarrow> error + collection" where
  "createTargetedIndexes accepts fieldsToIndex =
     foldE (\<lambda>f. createIndexChecked accepts (assign (JObj []) f (JNum 1))
                   (JObj [(''sparse'', JBool True)]))
       fieldsToIndex"

definition getSetupFunctionForTargetedIndex ::
  "(jsval \<Rightarrow> jsval \<Rightarrow> bool) \<Rightarrow> string list \<Rightarrow> (int \<Rightarrow> error + jsval) \<Rightarrow> int
     \<Rightarrow> collection \<Rightarrow> error + collection" where
  "getSetupFunctionForTargetedIndex accepts fieldsToIndex documentGenerator documentCount =
     (\<lambda>c. case populateCollection documentGenerator (dropCollection c) documentCount of
             Inl e \<Rightarrow> Inl e
           | Inr c' \<Rightarrow> createTargetedIndexes accepts fieldsToIndex c')"

text \<open>
  \<^verbatim>\<open>
  function getSetupFunctionWithWildcardIndex(fieldsToIndex, documentGenerator, documentCount) {
      return function(collection) {
          collection.drop();
          populateCollection(documentGenerator, collection, documentCount);
          var proj = {};
          for (var i = 0; i < fieldsToIndex.length; ++i) { proj[fieldsToIndex[i]] = 1; }
          var indexOptions = undefined;
          if (fieldsToIndex.length > 0) { indexOptions = {wildcardProjection: proj}; }
          assert.commandWorked(collection.createIndex({"$**": 1}, indexOptions));
      };
  }
  \<close>
\<close>

definition createWildcardIndex ::
  "(jsval \<Rightarrow> jsval \<Rightarrow> bool) \<Rightarrow> string list \<Rightarrow> collection \<Rightarrow> error + collection" where
  "createWildcardIndex accepts fieldsToIndex =
     (let proj = foldl (\<lambda>pr f. assign pr f (JNum 1)) (JObj []) fieldsToIndex;
          indexOptions = (if 0 < length fieldsToIndex
                          then JObj [(''wildcardProjection'', proj)] else JUndef)
      in createIndexChecked accepts (JObj [(''$**'', JNum 1)]) indexOptions)"

definition getSetupFunctionWithWildcardIndex ::
  "(jsval \<Rightarrow> jsval \<Rightarrow> bool) \<Rightarrow> string list \<Rightarrow> (int \<Rightarrow> error + jsval) \<Rightarrow> int
     \<Rightarrow> collection \<Rightarrow> error + collection" where
  "getSetupFunctionWithWildcardIndex accepts fieldsToIndex documentGenerator documentCount =
     (\<lambda>c. case populateCollection documentGenerator (dropCollection c) documentCount of
             Inl e \<Rightarrow> Inl e
           | Inr c' \<Rightarrow> createWildcardIndex accepts fieldsToIndex c')"

text \<open>
  The sibling's setup functions differ in one line: they call
  \<^verbatim>\<open>documentGenerator(collection, documentCount)\<close>, the generator inserting by itself.
  The sibling script calls its test builders with four arguments, so \<open>documentCount\<close>
  is \<^verbatim>\<open>undefined\<close> there; it is a value, handed on to the generator.
\<close>

definition getSetupFunctionForTargetedIndex_sib ::
  "(jsval \<Rightarrow> jsval \<Rightarrow> bool) \<Rightarrow> string list \<Rightarrow> (collection \<Rightarrow> jsval \<Rightarrow> error + collection)
     \<Rightarrow> jsval \<Rightarrow> collection \<Rightarrow> error + collection" where
  "getSetupFunctionForTargetedIndex_sib accepts fieldsToIndex documentGenerator documentCount =
     (\<lambda>c. case documentGenerator (dropCollection c) documentCount of
             Inl e \<Rightarrow> Inl e
           | Inr c' \<Rightarrow> createTargetedIndexes accepts fieldsToIndex c')"

definition getSetupFunctionWithWildcardIndex_sib ::
  "(jsval \<Rightarrow> jsval \<Rightarrow> bool) \<Rightarrow> string list \<Rightarrow> (collection \<Rightarrow> jsval \<Rightarrow> error + collection)
     \<Rightarrow> jsval \<Rightarrow> collection \<Rightarrow> error + collection" where
  "getSetupFunctionWithWildcardIndex_sib accepts fieldsToIndex documentGenerator documentCount =
     (\<lambda>c. case documentGenerator (dropCollection c) documentCount of
             Inl e \<Rightarrow> Inl e
           | Inr c' \<Rightarrow> createWildcardIndex accepts fieldsToIndex c')"

section \<open>The registry of test cases\<close>

record testcase =
  name :: string
  tags :: "string list"
  pre :: "collection \<Rightarrow> error + collection"
  ops :: "jsval list"

text \<open>
  \<^verbatim>\<open>
  function addReadTest(options) {
      tests.push({
          name: "Queries.WildcardIndex." + options.name,
          tags: ["wildcard_read", "indexed", ">=4.1.3"].concat(options.tags),
          pre: options.pre,
          ops: options.ops
      });
  }
  \<close>
  The global array \<^verbatim>\<open>tests\<close> is passed in and returned.
\<close>

definition addReadTest :: "testcase \<Rightarrow> testcase list \<Rightarrow> testcase list" where
  "addReadTest options tests =
     tests @ [\<lparr>name = ''Queries.WildcardIndex.'' @ name options,
               tags = [''wildcard_read'', ''indexed'', ''>=4.1.3''] @ tags options,
               pre = pre options,
               ops = ops options\<rparr>]"

text \<open>The sibling's \<^verbatim>\<open>addTest\<close> has other fixed tags: \<^verbatim>\<open>["wildcard", "query", "indexed"]\<close>.\<close>

definition addTest :: "testcase \<Rightarrow> testcase list \<Rightarrow> testcase list" where
  "addTest options tests =
     tests @ [\<lparr>name = ''Queries.WildcardIndex.'' @ name options,
               tags = [''wildcard'', ''query'', ''indexed''] @ tags options,
               pre = pre options,
               ops = ops options\<rparr>]"

text \<open>
  \<^verbatim>\<open>
  function makeStandaloneReadTest(name, fieldsToIndex, operationList, documentGenerator, documentCount) {
      addReadTest({name: name, tags: ["regression"],
          pre: getSetupFunctionWithWildcardIndex(fieldsToIndex, documentGenerator, documentCount),
          ops: operationList});
  }
  function makeComparisonReadTest(name, fieldsToIndex, operationList, documentGenerator, documentCount) {
      addReadTest({name: name, tags: ["regression"],
          pre: getSetupFunctionWithWildcardIndex(fieldsToIndex, documentGenerator, documentCount),
          ops: operationList});
      addReadTest({name: name + ".Baseline", tags: ["regression"],
          pre: getSetupFunctionForTargetedIndex(fieldsToIndex, documentGenerator, documentCount),
          ops: operationList});
  }
  \<close>
\<close>

definition makeStandaloneReadTest ::
  "(jsval \<Rightarrow> jsval \<Rightarrow> bool) \<Rightarrow> string \<Rightarrow> string list \<Rightarrow> jsval list
     \<Rightarrow> (int \<Rightarrow> error + jsval) \<Rightarrow> int \<Rightarrow> testcase list \<Rightarrow> testcase list" where
  "makeStandaloneReadTest accepts nm fieldsToIndex operationList documentGenerator documentCount tests =
     addReadTest
       \<lparr>name = nm, tags = [''regression''],
        pre = getSetupFunctionWithWildcardIndex accepts fieldsToIndex documentGenerator documentCount,
        ops = operationList\<rparr> tests"

definition makeComparisonReadTest ::
  "(jsval \<Rightarrow> jsval \<Rightarrow> bool) \<Rightarrow> string \<Rightarrow> string list \<Rightarrow> jsval list
     \<Rightarrow> (int \<Rightarrow> error + jsval) \<Rightarrow> int \<Rightarrow> testcase list \<Rightarrow> testcase list" where
  "makeComparisonReadTest accepts nm fieldsToIndex operationList documentGenerator documentCount tests =
     addReadTest
       \<lparr>name = nm @ ''.Baseline'', tags = [''regression''],
        pre = getSetupFunctionForTargetedIndex accepts fieldsToIndex documentGenerator documentCount,
        ops = operationList\<rparr>
       (addReadTest
          \<lparr>name = nm, tags = [''regression''],
           pre = getSetupFunctionWithWildcardIndex accepts fieldsToIndex documentGenerator documentCount,
           ops = operationList\<rparr> tests)"

text \<open>The sibling's two builders are the same over \<^verbatim>\<open>addTest\<close> and its own setup functions.\<close>

definition makeStandaloneReadTest_sib ::
  "(jsval \<Rightarrow> jsval \<Rightarrow> bool) \<Rightarrow> string \<Rightarrow> string list \<Rightarrow> jsval list
     \<Rightarrow> (collection \<Rightarrow> jsval \<Rightarrow> error + collection) \<Rightarrow> jsval \<Rightarrow> testcase list \<Rightarrow> testcase list" where
  "makeStandaloneReadTest_sib accepts nm fieldsToIndex operationList documentGenerator documentCount tests =
     addTest
       \<lparr>name = nm, tags = [''regression''],
        pre = getSetupFunctionWithWildcardIndex_sib accepts fieldsToIndex documentGenerator documentCount,
        ops = operationList\<rparr> tests"

definition makeComparisonReadTest_sib ::
  "(jsval \<Rightarrow> jsval \<Rightarrow> bool) \<Rightarrow> string \<Rightarrow> string list \<Rightarrow> jsval list
     \<Rightarrow> (collection \<Rightarrow> jsval \<Rightarrow> error + collection) \<Rightarrow> jsval \<Rightarrow> testcase list \<Rightarrow> testcase list" where
  "makeComparisonReadTest_sib accepts nm fieldsToIndex operationList documentGenerator documentCount tests =
     addTest
       \<lparr>name = nm @ ''.Baseline'', tags = [''regression''],
        pre = getSetupFunctionForTargetedIndex_sib accepts fieldsToIndex documentGenerator documentCount,
        ops = operationList\<rparr>
       (addTest
          \<lparr>name = nm, tags = [''regression''],
           pre = getSetupFunctionWithWildcardIndex_sib accepts fieldsToIndex documentGenerator documentCount,
           ops = operationList\<rparr> tests)"

section \<open>The random stream\<close>

text \<open>
  \<^verbatim>\<open>Random.setRandomSeed\<close> and \<^verbatim>\<open>Random.randInt\<close> belong to the shell, not to the
  scripts. What the scripts rely on is a reproducible stream: the seed and the number of
  draws since seeding determine the next draw. The state of the stream is that pair, and
  the shell's generator is a parameter \<open>gen\<close>, giving the draw for a seed, a position
  and a bound.
\<close>

record rng =
  rseed :: int
  rdrawn :: nat

definition setRandomSeed :: "int \<Rightarrow> rng \<Rightarrow> rng" where
  "setRandomSeed s st = \<lparr>rseed = s, rdrawn = 0\<rparr>"

definition randInt :: "(int \<Rightarrow> nat \<Rightarrow> int \<Rightarrow> int) \<Rightarrow> int \<Rightarrow> rng \<Rightarrow> int \<times> rng" where
  "randInt gen bound st = (gen (rseed st) (rdrawn st) bound, st\<lparr>rdrawn := Suc (rdrawn st)\<rparr>)"

text \<open>
  A stand-in generator with draws in \<open>[0, bound)\<close>, for evaluating the builders at
  concrete inputs.
\<close>

definition sampleGen :: "int \<Rightarrow> nat \<Rightarrow> int \<Rightarrow> int" where
  "sampleGen s k bound = (s + 7 * int k) mod bound"

section \<open>Query-list builders\<close>

text \<open>
  \<^verbatim>\<open>
  function getPointQueryList(fieldList, maxValue) {
      var list = [];
      for (var i = 0; i < fieldList.length; ++i) {
          var query = {};
          query[fieldList[i]] = {"#RAND_INT": [0, maxValue]};
          list.push({op: "find", query: query});
      }
      return list;
  }
  \<close>
  Both scripts define it, and \<^verbatim>\<open>getTwoPointQueryList\<close>, with the same text.
\<close>

definition findOp :: "jsval \<Rightarrow> jsval" where
  "findOp query = JObj [(''op'', JStr ''find''), (''query'', query)]"

definition getPointQueryList :: "string list \<Rightarrow> int \<Rightarrow> jsval list" where
  "getPointQueryList fieldList maxValue =
     map (\<lambda>f. findOp (assign (JObj []) f
                  (JObj [(''#RAND_INT'', JArr [JNum 0, JNum maxValue])]))) fieldList"

text \<open>
  \<^verbatim>\<open>
  function getTwoPointQueryList(fieldList, numDocuments) {
      assert(fieldList.length === 2);
      var letArg = {op: "let", target: "randVal", value: {"#RAND_INT": [0, numDocuments]}};
      var queryArg1 = {};
      queryArg1[fieldList[0]] = {"#VARIABLE": "randVal"};
      var queryArg2 = {};
      queryArg2[fieldList[1]] = {"#VARIABLE": "randVal"};
      var query = {$and: [queryArg1, queryArg2]};
      return [letArg, {op: "find", query: query}];
  }
  \<close>
\<close>

definition getTwoPointQueryList :: "string list \<Rightarrow> int \<Rightarrow> error + jsval list" where
  "getTwoPointQueryList fieldList numDocuments =
     (if length fieldList = 2 then
        (let letArg = JObj [(''op'', JStr ''let''), (''target'', JStr ''randVal''),
                            (''value'', JObj [(''#RAND_INT'', JArr [JNum 0, JNum numDocuments])])];
             queryArg1 = assign (JObj []) (fieldList ! 0) (JObj [(''#VARIABLE'', JStr ''randVal'')]);
             queryArg2 = assign (JObj []) (fieldList ! 1) (JObj [(''#VARIABLE'', JStr ''randVal'')]);
             query = JObj [(''$and'', JArr [queryArg1, queryArg2])]
         in Inr [letArg, findOp query])
      else Inl AssertionFailed)"

text \<open>
  The loop of the range builders draws once per field, in the order of the field list:
  \<^verbatim>\<open>
      for (var i = 0; i < fieldList.length; ++i) {
          var query = {};
          var rangeStart = Random.randInt(numDocuments - 10);
          query[fieldList[i]] = {$gte: rangeStart, $lte: (rangeStart + 10)};
          list.push({op: "find", query: query});
      }
  \<close>
\<close>

definition rangePredicate :: "string \<Rightarrow> int \<Rightarrow> jsval" where
  "rangePredicate f rangeStart =
     assign (JObj []) f
       (JObj [(''$gte'', JNum rangeStart), (''$lte'', JNum (js_add rangeStart 10))])"

fun rangeQueries ::
  "(int \<Rightarrow> nat \<Rightarrow> int \<Rightarrow> int) \<Rightarrow> int \<Rightarrow> string list \<Rightarrow> rng \<Rightarrow> jsval list \<times> rng" where
  "rangeQueries gen numDocuments [] st = ([], st)"
| "rangeQueries gen numDocuments (f # fs) st =
     (let (rangeStart, st1) = randInt gen (js_sub numDocuments 10) st;
          (rest, st2) = rangeQueries gen numDocuments fs st1
      in (findOp (rangePredicate f rangeStart) # rest, st2))"

text \<open>
  In wildcard_index_query.js the builder begins with \<^verbatim>\<open>Random.setRandomSeed(11010)\<close>;
  in the sibling the seed is set once, at the top of the script, and the builder only draws.
\<close>

definition getRangeQueryList ::
  "(int \<Rightarrow> nat \<Rightarrow> int \<Rightarrow> int) \<Rightarrow> string list \<Rightarrow> int \<Rightarrow> rng \<Rightarrow> jsval list \<times> rng" where
  "getRangeQueryList gen fieldList numDocuments st =
     rangeQueries gen numDocuments fieldList (setRandomSeed 11010 st)"

definition getRangeQueryList_sib ::
  "(int \<Rightarrow> nat \<Rightarrow> int \<Rightarrow> int) \<Rightarrow> string list \<Rightarrow> int \<Rightarrow> rng \<Rightarrow> jsval list \<times> rng" where
  "getRangeQueryList_sib gen fieldList numDocuments st =
     rangeQueries gen numDocuments fieldList st"

text \<open>
  The range and sort builders add \<^verbatim>\<open>sort[fieldList[i]] = 1\<close> and push
  \<^verbatim>\<open>{op: "find", query: {$query: query, $orderby: sort}}\<close>.
\<close>

fun rangeSortQueries ::
  "(int \<Rightarrow> nat \<Rightarrow> int \<Rightarrow> int) \<Rightarrow> int \<Rightarrow> string list \<Rightarrow> rng \<Rightarrow> jsval list \<times> rng" where
  "rangeSortQueries gen numDocuments [] st = ([], st)"
| "rangeSortQueries gen numDocuments (f # fs) st =
     (let (rangeStart, st1) = randInt gen (js_sub numDocuments 10) st;
          (rest, st2) = rangeSortQueries gen numDocuments fs st1
      in (findOp (JObj [(''$query'', rangePredicate f rangeStart),
                        (''$orderby'', assign (JObj []) f (JNum 1))]) # rest, st2))"

definition getRangeSortQueryList ::
  "(int \<Rightarrow> nat \<Rightarrow> int \<Rightarrow> int) \<Rightarrow> string list \<Rightarrow> int \<Rightarrow> rng \<Rightarrow> jsval list \<times> rng" where
  "getRangeSortQueryList gen fieldList numDocuments st =
     rangeSortQueries gen numDocuments fieldList (setRandomSeed 11010 st)"

definition getRangeSortQueryList_sib ::
  "(int \<Rightarrow> nat \<Rightarrow> int \<Rightarrow> int) \<Rightarrow> string list \<Rightarrow> int \<Rightarrow> rng \<Rightarrow> jsval list \<times> rng" where
  "getRangeSortQueryList_sib gen fieldList numDocuments st =
     rangeSortQueries gen numDocuments fieldList st"

section \<open>The two scripts\<close>

text \<open>
  Each script is a sequence of top-level statements run once, at load time. They share
  three pieces of global state: the registry \<^verbatim>\<open>tests\<close>, the random stream, and the
  variable \<^verbatim>\<open>fieldList\<close>. Both scripts set
  \<^verbatim>\<open>var numDocuments = 100; var defaultArraySize = 100; var fieldList = [];\<close>
  The two constants are \<open>g_numDocuments\<close> and \<open>g_defaultArraySize\<close> here, the plain
  names being the parameter names of the builders.
\<close>

record globals =
  g_tests :: "testcase list"
  g_random :: rng
  g_fieldList :: "string list"

definition g_numDocuments :: int where
  "g_numDocuments = 100"

definition g_defaultArraySize :: int where
  "g_defaultArraySize = 100"

text \<open>
  \<^verbatim>\<open>if (typeof tests != "object") { tests = []; }\<close>: the registry is created when no
  script before has created it.
\<close>

fun initTests :: "testcase list option \<Rightarrow> testcase list" where
  "initTests None = []"
| "initTests (Some ts) = ts"

text \<open>
  A statement pair of wildcard_index_query.js,
  \<^verbatim>\<open>fieldList = ...; makeComparisonReadTest(name, fieldsToIndex, ops, generator, numDocuments);\<close>
  assigns \<^verbatim>\<open>fieldList\<close>, evaluates the operation list (which may draw from the random
  stream), then the generator (which may fail its assertion), and then registers. The
  operation list and the generator are given as functions of the new field list.
\<close>

definition comparisonStmt ::
  "(jsval \<Rightarrow> jsval \<Rightarrow> bool) \<Rightarrow> string \<Rightarrow> string list \<Rightarrow> (string list \<Rightarrow> string list)
     \<Rightarrow> (string list \<Rightarrow> rng \<Rightarrow> error + jsval list \<times> rng)
     \<Rightarrow> (string list \<Rightarrow> error + (int \<Rightarrow> error + jsval))
     \<Rightarrow> globals \<Rightarrow> error + globals" where
  "comparisonStmt accepts nm fl fieldsToIndex opsOf genOf g =
     (case opsOf fl (g_random g) of
        Inl e \<Rightarrow> Inl e
      | Inr (operationList, r) \<Rightarrow>
          (case genOf fl of
             Inl e \<Rightarrow> Inl e
           | Inr dg \<Rightarrow>
               Inr \<lparr>g_tests = makeComparisonReadTest accepts nm (fieldsToIndex fl) operationList dg
                                g_numDocuments (g_tests g),
                    g_random = r, g_fieldList = fl\<rparr>))"

definition standaloneStmt ::
  "(jsval \<Rightarrow> jsval \<Rightarrow> bool) \<Rightarrow> string \<Rightarrow> string list \<Rightarrow> (string list \<Rightarrow> string list)
     \<Rightarrow> (string list \<Rightarrow> rng \<Rightarrow> error + jsval list \<times> rng)
     \<Rightarrow> (string list \<Rightarrow> error + (int \<Rightarrow> error + jsval))
     \<Rightarrow> globals \<Rightarrow> error + globals" where
  "standaloneStmt accepts nm fl fieldsToIndex opsOf genOf g =
     (case opsOf fl (g_random g) of
        Inl e \<Rightarrow> Inl e
      | Inr (operationList, r) \<Rightarrow>
          (case genOf fl of
             Inl e \<Rightarrow> Inl e
           | Inr dg \<Rightarrow>
               Inr \<lparr>g_tests = makeStandaloneReadTest accepts nm (fieldsToIndex fl) operationList dg
                                g_numDocuments (g_tests g),
                    g_random = r, g_fieldList = fl\<rparr>))"

text \<open>The four kinds of operation list, as functions of the field list and the stream.\<close>

definition pointOps :: "int \<Rightarrow> string list \<Rightarrow> rng \<Rightarrow> error + jsval list \<times> rng" where
  "pointOps maxValue fl r = Inr (getPointQueryList fl maxValue, r)"

definition twoPointOps :: "string list \<Rightarrow> rng \<Rightarrow> error + jsval list \<times> rng" where
  "twoPointOps fl r =
     (case getTwoPointQueryList fl g_numDocuments of Inl e \<Rightarrow> Inl e | Inr l \<Rightarrow> Inr (l, r))"

definition rangeOps ::
  "(int \<Rightarrow> nat \<Rightarrow> int \<Rightarrow> int) \<Rightarrow> string list \<Rightarrow> rng \<Rightarrow> error + jsval list \<times> rng" where
  "rangeOps gen fl r = Inr (getRangeQueryList gen fl g_numDocuments r)"

definition rangeSortOps ::
  "(int \<Rightarrow> nat \<Rightarrow> int \<Rightarrow> int) \<Rightarrow> string list \<Rightarrow> rng \<Rightarrow> error + jsval list \<times> rng" where
  "rangeSortOps gen fl r = Inr (getRangeSortQueryList gen fl g_numDocuments r)"

text \<open>
  The statements of wildcard_index_query.js, in the order of the file. The first test
  queries \<^verbatim>\<open>[fieldList[0]]\<close>; the second indexes and queries the field
  \<^verbatim>\<open>"non-existent"\<close> while the documents carry \<^verbatim>\<open>field-0\<close>.
\<close>

definition script ::
  "(int \<Rightarrow> nat \<Rightarrow> int \<Rightarrow> int) \<Rightarrow> (jsval \<Rightarrow> jsval \<Rightarrow> bool) \<Rightarrow> (globals \<Rightarrow> error + globals) list" where
  "script gen accepts =
     [standaloneStmt accepts ''PointQueryAgainstCollectionWith100MultikeyPaths''
        (getNFieldNames 100) (\<lambda>fl. fl) (\<lambda>fl. pointOps 10 [keyAt fl 0])
        (\<lambda>fl. getTopLevelArraySingleFieldPerDocumentGenerator fl 10),
      standaloneStmt accepts ''PointQueryOnSingleNonExistentField''
        (getNFieldNames 1) (\<lambda>fl. [''non-existent'']) (\<lambda>fl. pointOps g_numDocuments [''non-existent''])
        getMultiFieldPathToIntegerDocumentGenerator,
      comparisonStmt accepts ''PointQueryOnSingleField''
        (getNFieldNames 1) (\<lambda>fl. fl) (pointOps g_numDocuments)
        getMultiFieldPathToIntegerDocumentGenerator,
      comparisonStmt accepts ''PointQueryOnMultipleFields''
        (getNFieldNames 10) (\<lambda>fl. fl) (pointOps g_numDocuments)
        getMultiFieldPathToIntegerDocumentGenerator,
      comparisonStmt accepts ''PointQueryOnSingleArrayField''
        (getNFieldNames 1) (\<lambda>fl. fl) (pointOps g_numDocuments)
        (\<lambda>fl. getTopLevelArrayMultiFieldDocumentGenerator fl g_defaultArraySize),
      comparisonStmt accepts ''PointQueryOnMultipleArrayFields''
        (getNFieldNames 10) (\<lambda>fl. fl) (pointOps g_numDocuments)
        (\<lambda>fl. getTopLevelArrayMultiFieldDocumentGenerator fl g_defaultArraySize),
      comparisonStmt accepts ''RangeQueryOnSingleField''
        (getNFieldNames 1) (\<lambda>fl. fl) (rangeOps gen)
        getMultiFieldPathToIntegerDocumentGenerator,
      comparisonStmt accepts ''RangeQueryOnMultipleFields''
        (getNFieldNames 10) (\<lambda>fl. fl) (rangeOps gen)
        getMultiFieldPathToIntegerDocumentGenerator,
      comparisonStmt accepts ''RangeQueryOnSingleArrayField''
        (getNFieldNames 1) (\<lambda>fl. fl) (rangeOps gen)
        (\<lambda>fl. getTopLevelArrayMultiFieldDocumentGenerator fl g_defaultArraySize),
      comparisonStmt accepts ''RangeSortQueryOnSingleField''
        (getNFieldNames 1) (\<lambda>fl. fl) (rangeSortOps gen)
        getMultiFieldPathToIntegerDocumentGenerator,
      comparisonStmt accepts ''RangeSortQueryOnMultipleFields''
        (getNFieldNames 10) (\<lambda>fl. fl) (rangeSortOps gen)
        getMultiFieldPathToIntegerDocumentGenerator,
      comparisonStmt accepts ''RangeSortQueryOnSingleArrayField''
        (getNFieldNames 1) (\<lambda>fl. fl) (rangeSortOps gen)
        (\<lambda>fl. getTopLevelArrayMultiFieldDocumentGenerator fl g_defaultArraySize),
      comparisonStmt accepts ''PointQueryOnTwoFields''
        (getNFieldNames 2) (\<lambda>fl. fl) twoPointOps
        getMultiFieldPathToIntegerDocumentGenerator,
      comparisonStmt accepts ''PointQueryOnTwoArrayFields''
        (getNFieldNames 2) (\<lambda>fl. fl) twoPointOps
        (\<lambda>fl. getTopLevelArrayMultiFieldDocumentGenerator fl g_defaultArraySize)]"

definition build ::
  "(int \<Rightarrow> nat \<Rightarrow> int \<Rightarrow> int) \<Rightarrow> (jsval \<Rightarrow> jsval \<Rightarrow> bool) \<Rightarrow> testcase list option \<Rightarrow> rng
     \<Rightarrow> error + globals" where
  "build gen accepts tests0 r =
     foldE (\<lambda>stmt g. stmt g) (script gen accepts)
       \<lparr>g_tests = initTests tests0, g_random = r, g_fieldList = []\<rparr>"

text \<open>
  The sibling script. Its builders are called with four arguments, so the setup functions
  get \<^verbatim>\<open>undefined\<close> as \<open>documentCount\<close>; the generators already hold the count and
  take the collection only.
\<close>

definition comparisonStmt_sib ::
  "(jsval \<Rightarrow> jsval \<Rightarrow> bool) \<Rightarrow> string \<Rightarrow> string list \<Rightarrow> (string list \<Rightarrow> string list)
     \<Rightarrow> (string list \<Rightarrow> rng \<Rightarrow> error + jsval list \<times> rng)
     \<Rightarrow> (string list \<Rightarrow> error + (collection \<Rightarrow> error + collection))
     \<Rightarrow> globals \<Rightarrow> error + globals" where
  "comparisonStmt_sib accepts nm fl fieldsToIndex opsOf genOf g =
     (case opsOf fl (g_random g) of
        Inl e \<Rightarrow> Inl e
      | Inr (operationList, r) \<Rightarrow>
          (case genOf fl of
             Inl e \<Rightarrow> Inl e
           | Inr dg \<Rightarrow>
               Inr \<lparr>g_tests = makeComparisonReadTest_sib accepts nm (fieldsToIndex fl) operationList
                                (\<lambda>c documentCount. dg c) JUndef (g_tests g),
                    g_random = r, g_fieldList = fl\<rparr>))"

definition standaloneStmt_sib ::
  "(jsval \<Rightarrow> jsval \<Rightarrow> bool) \<Rightarrow> string \<Rightarrow> string list \<Rightarrow> (string list \<Rightarrow> string list)
     \<Rightarrow> (string list \<Rightarrow> rng \<Rightarrow> error + jsval list \<times> rng)
     \<Rightarrow> (string list \<Rightarrow> error + (collection \<Rightarrow> error + collection))
     \<Rightarrow> globals \<Rightarrow> error + globals" where
  "standaloneStmt_sib accepts nm fl fieldsToIndex opsOf genOf g =
     (case opsOf fl (g_random g) of
        Inl e \<Rightarrow> Inl e
      | Inr (operationList, r) \<Rightarrow>
          (case genOf fl of
             Inl e \<Rightarrow> Inl e
           | Inr dg \<Rightarrow>
               Inr \<lparr>g_tests = makeStandaloneReadTest_sib accepts nm (fieldsToIndex fl) operationList
                                (\<lambda>c documentCount. dg c) JUndef (g_tests g),
                    g_random = r, g_fieldList = fl\<rparr>))"

definition rangeOps_sib ::
  "(int \<Rightarrow> nat \<Rightarrow> int \<Rightarrow> int) \<Rightarrow> string list \<Rightarrow> rng \<Rightarrow> error + jsval list \<times> rng" where
  "rangeOps_sib gen fl r = Inr (getRangeQueryList_sib gen fl g_numDocuments r)"

definition rangeSortOps_sib ::
  "(int \<Rightarrow> nat \<Rightarrow> int \<Rightarrow> int) \<Rightarrow> string list \<Rightarrow> rng \<Rightarrow> error + jsval list \<times> rng" where
  "rangeSortOps_sib gen fl r = Inr (getRangeSortQueryList_sib gen fl g_numDocuments r)"

text \<open>The statement \<^verbatim>\<open>Random.setRandomSeed(11010);\<close> at the top of the sibling script.\<close>

definition seedStmt :: "globals \<Rightarrow> error + globals" where
  "seedStmt g = Inr (g\<lparr>g_random := setRandomSeed 11010 (g_random g)\<rparr>)"

definition script_sib ::
  "(int \<Rightarrow> nat \<Rightarrow> int \<Rightarrow> int) \<Rightarrow> (jsval \<Rightarrow> jsval \<Rightarrow> bool) \<Rightarrow> (globals \<Rightarrow> error + globals) list" where
  "script_sib gen accepts =
     [seedStmt,
      standaloneStmt_sib accepts ''PointQueryAgainstCollectionWith100MultikeyPaths''
        (getNFieldNames 100) (\<lambda>fl. fl) (\<lambda>fl. pointOps 10 [keyAt fl 0])
        (\<lambda>fl. getTopLevelArraySingleFieldPerDocumentGenerator_sib fl g_numDocuments 10),
      comparisonStmt_sib accepts ''PointQueryOnSingleField''
        (getNFieldNames 1) (\<lambda>fl. fl) (pointOps g_numDocuments)
        (\<lambda>fl. getDocumentGenerator fl g_numDocuments),
      comparisonStmt_sib accepts ''PointQueryOnMultipleFields''
        (getNFieldNames 10) (\<lambda>fl. fl) (pointOps g_numDocuments)
        (\<lambda>fl. getDocumentGenerator fl g_numDocuments),
      comparisonStmt_sib accepts ''PointQueryOnSingleArrayField''
        (getNFieldNames 1) (\<lambda>fl. fl) (pointOps g_numDocuments)
        (\<lambda>fl. getTopLevelArrayDocumentGenerator fl g_numDocuments g_defaultArraySize),
      comparisonStmt_sib accepts ''PointQueryOnMultipleArrayFields''
        (getNFieldNames 10) (\<lambda>fl. fl) (pointOps g_numDocuments)
        (\<lambda>fl. getTopLevelArrayDocumentGenerator fl g_numDocuments g_defaultArraySize),
      comparisonStmt_sib accepts ''PointQueryOnSingleDeeplyNestedField''
        (getNFieldNamesAtGivenDepth 1 10) (\<lambda>fl. fl) (pointOps g_numDocuments)
        (\<lambda>fl. getDocumentGenerator fl g_numDocuments),
      comparisonStmt_sib accepts ''PointQueryOnMultipleDeeplyNestedFields''
        (getNFieldNamesAtGivenDepth 10 10) (\<lambda>fl. fl) (pointOps g_numDocuments)
        (\<lambda>fl. getDocumentGenerator fl g_numDocuments),
      comparisonStmt_sib accepts ''RangeQueryOnSingleField''
        (getNFieldNames 1) (\<lambda>fl. fl) (rangeOps_sib gen)
        (\<lambda>fl. getDocumentGenerator fl g_numDocuments),
      comparisonStmt_sib accepts ''RangeQueryOnMultipleFields''
        (getNFieldNames 10) (\<lambda>fl. fl) (rangeOps_sib gen)
        (\<lambda>fl. getDocumentGenerator fl g_numDocuments),
      comparisonStmt_sib accepts ''RangeQueryOnSingleArrayField''
        (getNFieldNames 1) (\<lambda>fl. fl) (rangeOps_sib gen)
        (\<lambda>fl. getTopLevelArrayDocumentGenerator fl g_numDocuments g_defaultArraySize),
      comparisonStmt_sib accepts ''RangeQueryOnMultipleArrayFields''
        (getNFieldNames 10) (\<lambda>fl. fl) (rangeOps_sib gen)
        (\<lambda>fl. getTopLevelArrayDocumentGenerator fl g_numDocuments g_defaultArraySize),
      comparisonStmt_sib accepts ''RangeQueryOnSingleDeeplyNestedField''
        (getNFieldNamesAtGivenDepth 1 10) (\<lambda>fl. fl) (rangeOps_sib gen)
        (\<lambda>fl. getDocumentGenerator fl g_numDocuments),
      comparisonStmt_sib accepts ''RangeQueryOnMultipleDeeplyNestedFields''
        (getNFieldNamesAtGivenDepth 10 10) (\<lambda>fl. fl) (rangeOps_sib gen)
        (\<lambda>fl. getDocumentGenerator fl g_numDocuments),
      comparisonStmt_sib accepts ''RangeSortQueryOnSingleField''
        (getNFieldNames 1) (\<lambda>fl. fl) (rangeSortOps_sib gen)
        (\<lambda>fl. getDocumentGenerator fl g_numDocuments),
      comparisonStmt_sib accepts ''RangeSortQueryOnMultipleFields''
        (getNFieldNames 10) (\<lambda>fl. fl) (rangeSortOps_sib gen)
        (\<lambda>fl. getDocumentGenerator fl g_numDocuments),
      comparisonStmt_sib accepts ''RangeSortQueryOnSingleArrayField''
        (getNFieldNames 1) (\<lambda>fl. fl) (rangeSortOps_sib gen)
        (\<lambda>fl. getTopLevelArrayDocumentGenerator fl g_numDocuments g_defaultArraySize),
      comparisonStmt_sib accepts ''RangeSortQueryOnMultipleArrayFields''
        (getNFieldNames 10) (\<lambda>fl. fl) (rangeSortOps_sib gen)
        (\<lambda>fl. getTopLevelArrayDocumentGenerator fl g_numDocuments g_defaultArraySize),
      comparisonStmt_sib accepts ''RangeSortQueryOnSingleDeeplyNestedField''
        (getNFieldNamesAtGivenDepth 1 10) (\<lambda>fl. fl) (rangeSortOps_sib gen)
        (\<lambda>fl. getDocumentGenerator fl g_numDocuments),
      comparisonStmt_sib accepts ''RangeSortQueryOnMultipleDeeplyNestedFields''
        (getNFieldNamesAtGivenDepth 10 10) (\<lambda>fl. fl) (rangeSortOps_sib gen)
        (\<lambda>fl. getDocumentGenerator fl g_numDocuments),
      comparisonStmt_sib accepts ''PointQueryOnTwoFields''
        (getNFieldNames 2) (\<lambda>fl. fl) twoPointOps
        (\<lambda>fl. getDocumentGenerator fl g_numDocuments),
      comparisonStmt_sib accepts ''PointQueryOnTwoArrayFields''
        (getNFieldNames 2) (\<lambda>fl. fl) twoPointOps
        (\<lambda>fl. getTopLevelArrayDocumentGenerator fl g_numDocuments g_defaultArraySize),
      comparisonStmt_sib accepts ''PointQueryOnTwoDeeplyNestedFields''
        (getNFieldNamesAtGivenDepth 2 10) (\<lambda>fl. fl) twoPointOps
        (\<lambda>fl. getDocumentGenerator fl g_numDocuments),
      comparisonStmt_sib accepts ''PointQueryOnSingleNonExistentField''
        (getNFieldNames 1) (\<lambda>fl. [''non-existent'']) (\<lambda>fl. pointOps g_numDocuments [''non-existent''])
        (\<lambda>fl. getDocumentGenerator fl g_numDocuments)]"

definition build_sib ::
  "(int \<Rightarrow> nat \<Rightarrow> int \<Rightarrow> int) \<Rightarrow> (jsval \<Rightarrow> jsval \<Rightarrow> bool) \<Rightarrow> testcase list option \<Rightarrow> rng
     \<Rightarrow> error + globals" where
  "build_sib gen accepts tests0 r =
     foldE (\<lambda>stmt g. stmt g) (script_sib gen accepts)
       \<lparr>g_tests = initTests tests0, g_random = r, g_fieldList = []\<rparr>"

text \<open>Properties of statements, used to reason about a whole script.\<close>

text \<open>A statement that always succeeds and adds \<open>k\<close> test cases.\<close>

definition adds :: "nat \<Rightarrow> (globals \<Rightarrow> error + globals) \<Rightarrow> bool" where
  "adds k stmt \<longleftrightarrow> (\<forall>g. \<exists>g'. stmt g = Inr g' \<and> length (g_tests g') = length (g_tests g) + k)"

definition totalOps :: "(rng \<Rightarrow> error + jsval list \<times> rng) \<Rightarrow> bool" where
  "totalOps opsF \<longleftrightarrow> (\<forall>r. \<exists>l r'. opsF r = Inr (l, r'))"

text \<open>Two global states with the same registry and the same field list.\<close>

definition sameRegistry :: "globals \<Rightarrow> globals \<Rightarrow> bool" where
  "sameRegistry g1 g2 \<longleftrightarrow> g_tests g1 = g_tests g2 \<and> g_fieldList g1 = g_fieldList g2"

definition keeps :: "(globals \<Rightarrow> error + globals) \<Rightarrow> bool" where
  "keeps stmt \<longleftrightarrow> (\<forall>g1 g2. sameRegistry g1 g2 \<longrightarrow> rel_sum (=) sameRegistry (stmt g1) (stmt g2))"

definition streamFree :: "(rng \<Rightarrow> error + jsval list \<times> rng) \<Rightarrow> bool" where
  "streamFree opsF \<longleftrightarrow> (\<forall>r1 r2. map_sum id fst (opsF r1) = map_sum id fst (opsF r2))"

section \<open>Nested mappings\<close>


section \<open>Reading a document at a dotted path\<close>

text \<open>
  The value a document holds at a dotted location: follow the segments through the own
  properties of nested mappings. Anything that is not a mapping on the way reads as
  absent.
\<close>

fun getPath :: "jsval \<Rightarrow> string list \<Rightarrow> jsval" where
  "getPath v [] = v"
| "getPath (JObj kvs) (k # ks) = getPath (getField kvs k) ks"
| "getPath v (k # ks) = JUndef"

text \<open>The call \<^verbatim>\<open>builder(fieldList)(seed)\<close>: build the generator, then ask it for a document.\<close>

definition applyGenerator :: "error + (int \<Rightarrow> error + jsval) \<Rightarrow> int \<Rightarrow> error + jsval" where
  "applyGenerator builder seed = (case builder of Inl e \<Rightarrow> Inl e | Inr g \<Rightarrow> g seed)"

text \<open>
  A value made of numbers, strings, booleans, \<^verbatim>\<open>undefined\<close> and mappings only, which
  is what the scalar generator builds.
\<close>

fun plain :: "jsval \<Rightarrow> bool" where
  "plain (JObj kvs) = (\<forall>kv \<in> set kvs. plain (snd kv))"
| "plain JNull = False"
| "plain (JArr xs) = False"
| "plain (JObjP p kvs) = False"
| "plain v = True"

text \<open>
  \<^verbatim>\<open>setDottedFieldToValue\<close> seen on the list of segments instead of the string; lemma
  \<open>setDotted_segs\<close> shows that the two agree.
\<close>

fun setSegs :: "jsval \<Rightarrow> string list \<Rightarrow> jsval \<Rightarrow> error + jsval" where
  "setSegs object [] val = Inr object"
| "setSegs object [k] val = setProp object k val"
| "setSegs object (k # ks) val =
     (case getProp object k of
        Inl e \<Rightarrow> Inl e
      | Inr cur \<Rightarrow>
          (case (if typeof cur \<noteq> ''object'' then setProp object k (JObj []) else Inr object) of
             Inl e \<Rightarrow> Inl e
           | Inr object1 \<Rightarrow>
               (case getProp object1 k of
                  Inl e \<Rightarrow> Inl e
                | Inr child \<Rightarrow>
                    (case setSegs child ks val of
                       Inl e \<Rightarrow> Inl e
                     | Inr child' \<Rightarrow> Inr (replaceOwn object1 k child')))))"

text \<open>
  The child the code goes into under the key \<open>k\<close> of a mapping: the value of \<open>k\<close> when
  its \<^verbatim>\<open>typeof\<close> is \<^verbatim>\<open>"object"\<close>, a fresh empty mapping otherwise.
\<close>

definition descend :: "(string \<times> jsval) list \<Rightarrow> string \<Rightarrow> jsval" where
  "descend kvs k = (if typeof (getField kvs k) \<noteq> ''object'' then JObj [] else getField kvs k)"


section \<open>Reading and writing object fields\<close>

lemma ceil_half_is_ceiling: "ceil_half a = \<lceil>real_of_int a / 2\<rceil>"
  unfolding ceil_half_def by linarith

lemma getField_setField_same: "getField (setField kvs k v) k = v"
  by (induction kvs) auto

lemma getField_setField_other: "k' \<noteq> k \<Longrightarrow> getField (setField kvs k v) k' = getField kvs k'"
  by (induction kvs) auto

lemma getField_bind_all:
  "getField (foldl (\<lambda>doc f. setField doc f v) kvs fs) k =
     (if k \<in> set fs then v else getField kvs k)"
  by (induction fs arbitrary: kvs) (auto simp: getField_setField_same getField_setField_other)

lemma keys_setField:
  "map fst (setField kvs k v) = (if k \<in> fst ` set kvs then map fst kvs else map fst kvs @ [k])"
  by (induction kvs) (force+)

lemma keys_setField_set: "fst ` set (setField kvs k v) = insert k (fst ` set kvs)"
proof (cases "k \<in> fst ` set kvs")
  case True
  then have "map fst (setField kvs k v) = map fst kvs" by (simp add: keys_setField)
  then have "set (map fst (setField kvs k v)) = set (map fst kvs)" by simp
  with True show ?thesis by auto
next
  case False
  then have "map fst (setField kvs k v) = map fst kvs @ [k]" by (simp add: keys_setField)
  then have "set (map fst (setField kvs k v)) = set (map fst kvs @ [k])" by simp
  then show ?thesis by auto
qed

lemma keys_bind_all:
  "fst ` set (foldl (\<lambda>doc f. setField doc f v) kvs fs) = fst ` set kvs \<union> set fs"
  by (induction fs arbitrary: kvs) (auto simp: keys_setField_set)

text \<open>An assignment under any name but \<^verbatim>\<open>__proto__\<close> defines an own property.\<close>

lemma assign_own: "k \<noteq> ''__proto__'' \<Longrightarrow> assign (JObj kvs) k v = JObj (setField kvs k v)"
  by simp

lemma assign_all:
  "''__proto__'' \<notin> set fs \<Longrightarrow>
     foldl (\<lambda>doc f. assign doc f v) (JObj kvs) fs = JObj (foldl (\<lambda>doc f. setField doc f v) kvs fs)"
  by (induction fs arbitrary: kvs) auto

section \<open>Exact sums\<close>

text \<open>Up to \<open>2 ^ 53\<close> in magnitude, sums and differences are the integer ones.\<close>

lemma dropBits_small: "m < 2 ^ 53 \<Longrightarrow> dropBits m = 0"
  by (subst dropBits.simps) simp

lemma roundMag_small: "m \<le> 2 ^ 53 \<Longrightarrow> roundMag m = m"
proof (cases "m < 2 ^ 53")
  case True
  then show ?thesis by (simp add: roundMag_def dropBits_small)
next
  case False
  assume "m \<le> 2 ^ 53"
  with False have m: "m = 2 ^ 53" by simp
  have "dropBits (2 ^ 53) = Suc (dropBits (2 ^ 52))"
    by (subst dropBits.simps) simp
  also have "dropBits (2 ^ 52) = 0"
    by (rule dropBits_small) simp
  finally show ?thesis
    unfolding m by (simp add: roundMag_def)
qed

lemma round53_exact: "\<bar>x\<bar> \<le> 2 ^ 53 \<Longrightarrow> round53 x = x"
proof -
  assume a: "\<bar>x\<bar> \<le> 2 ^ 53"
  then have "nat \<bar>x\<bar> \<le> 2 ^ 53" by (simp add: nat_le_iff)
  then have "roundMag (nat \<bar>x\<bar>) = nat \<bar>x\<bar>" by (rule roundMag_small)
  then show ?thesis by (simp add: round53_def mult_sgn_abs)
qed

lemma countUp_exact:
  "- (2 ^ 53) \<le> v \<Longrightarrow> v + int n \<le> 2 ^ 53 \<Longrightarrow> countUp v n = map (\<lambda>j. v + int j) [0..<n]"
proof (induction n arbitrary: v)
  case 0
  show ?case by simp
next
  case (Suc n)
  have "\<bar>v + 1\<bar> \<le> 2 ^ 53" using Suc.prems by linarith
  then have s: "js_add v 1 = v + 1" by (simp add: js_add_def round53_exact)
  have "countUp (v + 1) n = map (\<lambda>j. (v + 1) + int j) [0..<n]"
    using Suc.prems by (intro Suc.IH) linarith+
  moreover have "map (\<lambda>j. v + int j) [0..<Suc n] = v # map (\<lambda>j. (v + 1) + int j) [0..<n]"
    by (simp only: upt_conv_Cons [OF zero_less_Suc] map_Suc_upt [symmetric] list.map map_map o_def)
       simp
  ultimately show ?case by (simp only: countUp.simps s)
qed

lemma countUp_numeral: "countUp v (numeral n) = v # countUp (js_add v 1) (pred_numeral n)"
  by (simp add: numeral_eq_Suc)

section \<open>Splitting paths\<close>

lemma split_dot_single: "length (split_dot p) = 1 \<Longrightarrow> split_dot p = [p]"
proof (induction p)
  case Nil
  show ?case by simp
next
  case (Cons c cs)
  show ?case
  proof (cases "c = CHR ''.''")
    case True
    with Cons.prems show ?thesis by (simp add: split_dot_not_Nil)
  next
    case False
    with Cons.prems have "length (split_dot cs) = 1"
      using split_dot_not_Nil [of cs] by (cases "split_dot cs") simp_all
    then have "split_dot cs = [cs]" by (rule Cons.IH)
    with False show ?thesis by simp
  qed
qed

lemma split_dot_slice:
  "length (split_dot p) \<noteq> 1 \<Longrightarrow>
     split_dot (drop (length (hd (split_dot p)) + 1) p) = tl (split_dot p)"
proof (induction p)
  case Nil
  then show ?case by simp
next
  case (Cons c cs)
  show ?case
  proof (cases "c = CHR ''.''")
    case True
    then show ?thesis by simp
  next
    case False
    with Cons.prems have "length (split_dot cs) \<noteq> 1"
      using split_dot_not_Nil [of cs] by (cases "split_dot cs") simp_all
    then have "split_dot (drop (length (hd (split_dot cs)) + 1) cs) = tl (split_dot cs)"
      by (rule Cons.IH)
    with False show ?thesis by simp
  qed
qed

lemma split_dot_append:
  "CHR ''.'' \<notin> set f0 \<Longrightarrow> split_dot (f0 @ CHR ''.'' # rest) = f0 # split_dot rest"
  by (induction f0) auto

section \<open>Field-name synthesis at a depth\<close>

lemma digit_cases: "d < 10 \<Longrightarrow> d \<in> {0, 1, 2, 3, 4, 5, 6, 7, 8, 9::nat}"
  by auto

lemma digit_char_code: "d < 10 \<Longrightarrow> of_char (digit_char d) = 48 + d"
  by (drule digit_cases) (auto simp: digit_char_def)

lemma digit_char_inj:
  assumes "a < 10" and "b < 10" and "digit_char a = digit_char b"
  shows "a = b"
proof -
  have "(of_char (digit_char a) :: nat) = of_char (digit_char b)"
    by (simp only: assms(3))
  then have "48 + a = 48 + b"
    by (simp only: digit_char_code [OF assms(1)] digit_char_code [OF assms(2)])
  then show ?thesis by simp
qed

lemma digit_char_not_dot: "d < 10 \<Longrightarrow> digit_char d \<noteq> CHR ''.''"
  by (drule digit_cases) (auto simp: digit_char_def)

lemma string_of_nat_not_Nil: "string_of_nat n \<noteq> []"
  by (subst string_of_nat.simps) simp

lemma string_of_nat_no_dot: "CHR ''.'' \<notin> set (string_of_nat n)"
proof (induction n rule: string_of_nat.induct)
  case (1 n)
  show ?case
  proof (cases "n < 10")
    case True
    then show ?thesis
      using digit_char_not_dot [of n] by (subst string_of_nat.simps) auto
  next
    case False
    with 1 have "CHR ''.'' \<notin> set (string_of_nat (n div 10))" by simp
    moreover have "digit_char (n mod 10) \<noteq> CHR ''.''" by (rule digit_char_not_dot) simp
    ultimately show ?thesis using False by (subst string_of_nat.simps) auto
  qed
qed

lemma string_of_nat_inj: "string_of_nat n = string_of_nat m \<Longrightarrow> n = m"
proof (induction n arbitrary: m rule: string_of_nat.induct)
  case (1 n)
  show ?case
  proof (cases "n < 10")
    case n: True
    show ?thesis
    proof (cases "m < 10")
      case True
      with n "1.prems" have "digit_char n = digit_char m"
        by (simp add: string_of_nat.simps [of n] string_of_nat.simps [of m])
      with n True show ?thesis by (rule digit_char_inj)
    next
      case False
      with n "1.prems" string_of_nat_not_Nil [of "m div 10"] show ?thesis
        by (simp add: string_of_nat.simps [of n] string_of_nat.simps [of m])
    qed
  next
    case n: False
    show ?thesis
    proof (cases "m < 10")
      case True
      with n "1.prems" string_of_nat_not_Nil [of "n div 10"] show ?thesis
        by (simp add: string_of_nat.simps [of n] string_of_nat.simps [of m])
    next
      case False
      with n "1.prems" have e: "string_of_nat (n div 10) = string_of_nat (m div 10)"
        and d: "digit_char (n mod 10) = digit_char (m mod 10)"
        by (simp_all add: string_of_nat.simps [of n] string_of_nat.simps [of m])
      from "1.IH" [OF n e] have "n div 10 = m div 10" .
      moreover from d have "n mod 10 = m mod 10" by (intro digit_char_inj) simp_all
      ultimately show ?thesis by (metis div_mult_mod_eq)
    qed
  qed
qed

lemma split_dot_no_dot: "CHR ''.'' \<notin> set s \<Longrightarrow> split_dot s = [s]"
  by (induction s) auto

lemma split_dot_join: "split_dot (a @ CHR ''.'' # b) = split_dot a @ split_dot b"
proof (induction a)
  case Nil
  show ?case by simp
next
  case (Cons c cs)
  then show ?case using split_dot_not_Nil [of cs] by (cases "split_dot cs") auto
qed

lemma pathPrefix_Suc:
  "pathPrefix (int (Suc d)) = (if 0 < d then pathPrefix (int d) @ ''.'' else '''') @ subObjName d"
  unfolding pathPrefix_def subObjName_def nat_int by simp

lemma split_dot_subObjName: "split_dot (subObjName i) = [subObjName i]"
  by (rule split_dot_no_dot) (simp add: subObjName_def string_of_nat_no_dot)

lemma split_dot_fieldName: "split_dot (fieldName i) = [fieldName i]"
  by (rule split_dot_no_dot) (simp add: fieldName_def string_of_nat_no_dot)

lemma split_dot_pathPrefix:
  "split_dot (pathPrefix (int (Suc d))) = map subObjName [0..<Suc d]"
proof (induction d)
  case 0
  have "pathPrefix (int (Suc 0)) = subObjName 0" by (subst pathPrefix_Suc) simp
  then show ?case by (simp only: split_dot_subObjName) simp
next
  case (Suc d)
  have "pathPrefix (int (Suc (Suc d))) = pathPrefix (int (Suc d)) @ CHR ''.'' # subObjName (Suc d)"
    by (subst pathPrefix_Suc) simp
  then show ?case using Suc by (simp add: split_dot_join split_dot_subObjName)
qed

lemma names_at_positive_depth:
  assumes "1 \<le> depth"
  shows "length (getNFieldNamesAtGivenDepth n depth) = nat n
         \<and> distinct (getNFieldNamesAtGivenDepth n depth)
         \<and> (\<forall>i < nat n. split_dot (getNFieldNamesAtGivenDepth n depth ! i)
                = map subObjName [0..<nat depth] @ [fieldName i])"
proof -
  define d where "d = nat depth - 1"
  have d: "depth = int (Suc d)" using assms by (simp add: d_def)
  have nd: "nat depth = Suc d" using assms by (simp add: d_def)
  have names: "getNFieldNamesAtGivenDepth n depth
                = map (\<lambda>i. pathPrefix depth @ CHR ''.'' # fieldName i) [0..<nat n]"
    by (simp add: getNFieldNamesAtGivenDepth_def getNFieldNames_def fieldName_def)
  have "inj_on (\<lambda>i. pathPrefix depth @ CHR ''.'' # fieldName i) (set [0..<nat n])"
    by (rule inj_onI) (simp add: fieldName_def string_of_nat_inj)
  then have dist: "distinct (getNFieldNamesAtGivenDepth n depth)"
    unfolding names by (simp only: distinct_map distinct_upt simp_thms)
  have segs: "\<forall>i < nat n. split_dot (getNFieldNamesAtGivenDepth n depth ! i)
                = map subObjName [0..<nat depth] @ [fieldName i]"
  proof (intro allI impI)
    fix i assume i: "i < nat n"
    then have "getNFieldNamesAtGivenDepth n depth ! i = pathPrefix depth @ CHR ''.'' # fieldName i"
      unfolding names by simp
    then have "split_dot (getNFieldNamesAtGivenDepth n depth ! i)
                 = split_dot (pathPrefix (int (Suc d))) @ split_dot (fieldName i)"
      unfolding d by (simp only: split_dot_join)
    then show "split_dot (getNFieldNamesAtGivenDepth n depth ! i)
                = map subObjName [0..<nat depth] @ [fieldName i]"
      unfolding nd by (simp only: split_dot_pathPrefix split_dot_fieldName)
  qed
  have "length (getNFieldNamesAtGivenDepth n depth) = nat n" unfolding names by simp
  with dist segs show ?thesis by blast
qed

text \<open>
  C1. At depth 0 \<^verbatim>\<open>getNFieldNamesAtGivenDepth\<close> does not return the flat names: the dot
  between prefix and field name is added although the prefix is empty, so
  \<^verbatim>\<open>getNFieldNamesAtGivenDepth(1, 0)\<close> is \<^verbatim>\<open>[".field-0"]\<close>, a path of two segments, the
  first empty. Lemma \<open>names_at_positive_depth\<close> above shows that from depth 1 on the
  names are as the doc comment says: distinct, \<open>depth\<close> segments \<^verbatim>\<open>subObj-0\<close>,
  \<^verbatim>\<open>subObj-1\<close>, ... followed by \<^verbatim>\<open>field-i\<close>.
\<close>

theorem names_at_depth_zero:
  "getNFieldNamesAtGivenDepth 1 0 = [''.field-0'']
   \<and> getNFieldNamesAtGivenDepth 1 0 \<noteq> getNFieldNames 1
   \<and> split_dot (getNFieldNamesAtGivenDepth 1 0 ! 0) = ['''', ''field-0'']"
  by (simp add: getNFieldNamesAtGivenDepth_def getNFieldNames_def pathPrefix_def
      string_of_nat.simps [of 0] digit_char_def)

section \<open>Configuration errors\<close>

text \<open>
  C9. Each of the six document-generator builders fails its assertion on the empty field
  list, when the generator is built and before any document is asked for; the two-field
  point-query builder fails its assertion on every field list whose length is not 2. In
  each case the builder's result is the failure, and no generator or query list.
\<close>

theorem builders_reject_bad_field_lists:
  "getMultiFieldPathToIntegerDocumentGenerator [] = Inl AssertionFailed
   \<and> getTopLevelArrayMultiFieldDocumentGenerator [] arraySize = Inl AssertionFailed
   \<and> getTopLevelArraySingleFieldPerDocumentGenerator [] arraySize = Inl AssertionFailed
   \<and> getDocumentGenerator [] documentCount = Inl AssertionFailed
   \<and> getTopLevelArrayDocumentGenerator [] documentCount arraySize = Inl AssertionFailed
   \<and> getTopLevelArraySingleFieldPerDocumentGenerator_sib [] documentCount arraySize
         = Inl AssertionFailed
   \<and> (length fieldList \<noteq> 2 \<longrightarrow> getTwoPointQueryList fieldList numDocuments = Inl AssertionFailed)"
  by (simp add: getMultiFieldPathToIntegerDocumentGenerator_def
      getTopLevelArrayMultiFieldDocumentGenerator_def
      getTopLevelArraySingleFieldPerDocumentGenerator_def getDocumentGenerator_def
      getTopLevelArrayDocumentGenerator_def getTopLevelArraySingleFieldPerDocumentGenerator_sib_def
      getTwoPointQueryList_def)

theorem builders_reject_bad_field_lists_witness:
  "length [''a'', ''b'', ''c''] \<noteq> 2
   \<and> getTwoPointQueryList [''a'', ''b'', ''c''] 100 = Inl AssertionFailed
   \<and> getTwoPointQueryList [] 100 = Inl AssertionFailed
   \<and> getMultiFieldPathToIntegerDocumentGenerator [] = Inl AssertionFailed"
  using builders_reject_bad_field_lists [of 0 0 "[''a'', ''b'', ''c'']" 100]
    builders_reject_bad_field_lists [of 0 0 "[]" 100]
  by simp

section \<open>The shared-array generator\<close>

lemma countUp_from:
  assumes "1 \<le> arraySize" and "\<bar>seed\<bar> + arraySize \<le> 2 ^ 53"
  shows "countUp (js_sub seed (ceil_half arraySize)) (nat arraySize)
           = map (\<lambda>j. seed - \<lceil>real_of_int arraySize / 2\<rceil> + int j) [0..<nat arraySize]"
proof -
  have c: "0 \<le> ceil_half arraySize" "ceil_half arraySize \<le> arraySize"
    using assms(1) unfolding ceil_half_def by linarith+
  then have "\<bar>seed - ceil_half arraySize\<bar> \<le> 2 ^ 53" using assms(2) by linarith
  then have s: "js_sub seed (ceil_half arraySize) = seed - ceil_half arraySize"
    by (simp add: js_sub_def round53_exact)
  have "countUp (seed - ceil_half arraySize) (nat arraySize)
          = map (\<lambda>j. seed - ceil_half arraySize + int j) [0..<nat arraySize]"
    using c assms by (intro countUp_exact) linarith+
  then show ?thesis unfolding s by (simp add: ceil_half_is_ceiling)
qed

text \<open>
  C3, as the code has it. Take a non-empty field list without the name \<^verbatim>\<open>__proto__\<close>,
  an \<open>arraySize\<close> from 1 up to the longest array there is, and a seed with
  \<open>\<bar>seed\<bar> + arraySize \<le> 2 ^ 53\<close>, so that the counter \<^verbatim>\<open>value++\<close> is exact. Then the
  builder \<^verbatim>\<open>getTopLevelArrayMultiFieldDocumentGenerator\<close> succeeds, and at the seed the
  function it returns gives a document whose keys are the fields of the list, each bound
  to the same array: \<open>arraySize\<close> consecutive integers from
  \<open>seed - \<lceil>arraySize / 2\<rceil>\<close> on.
\<close>

theorem shared_array_generator:
  assumes "fieldList \<noteq> []" and "''__proto__'' \<notin> set fieldList"
    and "1 \<le> arraySize" and "arraySize < 2 ^ 32" and "\<bar>seed\<bar> + arraySize \<le> 2 ^ 53"
  shows "\<exists>g doc. getTopLevelArrayMultiFieldDocumentGenerator fieldList arraySize = Inr g
           \<and> g seed = Inr (JObj doc)
           \<and> fst ` set doc = set fieldList
           \<and> (\<forall>f \<in> set fieldList.
                 getField doc f =
                   JArr (map (\<lambda>j. JNum (seed - \<lceil>real_of_int arraySize / 2\<rceil> + int j))
                          [0..<nat arraySize]))"
  using assms(1,2)
  by (simp add: getTopLevelArrayMultiFieldDocumentGenerator_def Let_def assign_all
      getField_bind_all keys_bind_all countUp_from [OF assms(3,5)] comp_def)

theorem shared_array_generator_witness:
  "[''x''] \<noteq> [] \<and> ''__proto__'' \<notin> set [''x''] \<and> (1::int) \<le> 4 \<and> (4::int) < 2 ^ 32
   \<and> \<bar>0::int\<bar> + 4 \<le> 2 ^ 53
   \<and> (\<exists>g doc. getTopLevelArrayMultiFieldDocumentGenerator [''x''] 4 = Inr g
          \<and> g 0 = Inr (JObj doc) \<and> fst ` set doc = {''x''}
          \<and> getField doc ''x'' = JArr [JNum (- 2), JNum (- 1), JNum 0, JNum 1])
   \<and> applyGenerator (getTopLevelArrayMultiFieldDocumentGenerator [''x''] 4) 0
       = Inr (JObj [(''x'', JArr [JNum (- 2), JNum (- 1), JNum 0, JNum 1])])"
proof -
  have h: "[''x''] \<noteq> []" "''__proto__'' \<notin> set [''x'']" "(1::int) \<le> 4" "(4::int) < 2 ^ 32"
    "\<bar>0::int\<bar> + 4 \<le> 2 ^ 53"
    by simp_all
  have u: "[0..<nat 4] = [0, 1, 2, 3]" by (simp add: upt_conv_Cons)
  have t: "\<exists>g doc. getTopLevelArrayMultiFieldDocumentGenerator [''x''] 4 = Inr g
          \<and> g 0 = Inr (JObj doc) \<and> fst ` set doc = {''x''}
          \<and> getField doc ''x'' = JArr [JNum (- 2), JNum (- 1), JNum 0, JNum 1]"
    using shared_array_generator [OF h] unfolding u by simp
  have a: "js_sub 0 (ceil_half 4) = - 2"
    by (simp add: js_sub_def ceil_half_def round53_exact)
  have b: "js_add (- 2) 1 = - 1" "js_add (- 1) 1 = 0" "js_add 0 1 = 1"
    by (simp_all add: js_add_def round53_exact)
  have e: "applyGenerator (getTopLevelArrayMultiFieldDocumentGenerator [''x''] 4) 0
       = Inr (JObj [(''x'', JArr [JNum (- 2), JNum (- 1), JNum 0, JNum 1])])"
    unfolding applyGenerator_def getTopLevelArrayMultiFieldDocumentGenerator_def
    by (simp add: Let_def a b countUp_numeral)
  from h t e show ?thesis by simp
qed

text \<open>
  The claim as stated fails twice. A field named \<^verbatim>\<open>__proto__\<close> is not bound: the
  assignment \<^verbatim>\<open>doc["__proto__"] = valueList\<close> makes the array the prototype of the
  document, which has no key. And from \<open>2 ^ 53\<close> on the counter \<^verbatim>\<open>value++\<close> stands
  still: at the seed \<open>2 ^ 53 + 2\<close> the four numbers are equal.
\<close>

theorem shared_array_generator_counterexample:
  "applyGenerator (getTopLevelArrayMultiFieldDocumentGenerator [''__proto__''] 4) 0
     = Inr (JObjP (JArr [JNum (- 2), JNum (- 1), JNum 0, JNum 1]) [])
   \<and> applyGenerator (getTopLevelArrayMultiFieldDocumentGenerator [''x''] 4) 9007199254740994
     = Inr (JObj [(''x'', JArr [JNum 9007199254740992, JNum 9007199254740992,
                                JNum 9007199254740992, JNum 9007199254740992])])"
proof -
  have a: "js_sub 0 (ceil_half 4) = - 2"
    by (simp add: js_sub_def ceil_half_def round53_exact)
  have b: "js_add (- 2) 1 = - 1" "js_add (- 1) 1 = 0" "js_add 0 1 = 1"
    by (simp_all add: js_add_def round53_exact)
  have c: "js_sub 9007199254740994 (ceil_half 4) = 9007199254740992"
    by (simp add: js_sub_def ceil_half_def round53_exact)
  have d1: "dropBits 9007199254740993 = Suc 0"
    by (subst dropBits.simps, simp, rule dropBits_small) simp
  have d: "js_add 9007199254740992 1 = 9007199254740992"
    by (simp add: js_add_def round53_def roundMag_def d1)
  show ?thesis
    unfolding applyGenerator_def getTopLevelArrayMultiFieldDocumentGenerator_def
    by (simp add: Let_def a b c d countUp_numeral)
qed

section \<open>The rotating single-array-field generator\<close>

lemma js_rem_nonneg: "0 \<le> a \<Longrightarrow> 0 < b \<Longrightarrow> js_rem a b = a mod b"
  by (simp add: js_rem_def sgn_if)

lemma keyAt_rem:
  assumes "fieldList \<noteq> []" and "0 \<le> seed"
  shows "keyAt fieldList (js_rem seed (int (length fieldList)))
           = fieldList ! (nat seed mod length fieldList)"
proof -
  have len: "0 < int (length fieldList)" using assms(1) by simp
  have r: "js_rem seed (int (length fieldList)) = seed mod int (length fieldList)"
    using assms(2) len by (rule js_rem_nonneg)
  have "seed mod int (length fieldList) = int (nat seed mod length fieldList)"
    using assms(2) by (simp add: zmod_int)
  with r len show ?thesis by (simp add: keyAt_def)
qed

text \<open>
  C5, as the code has it. Take a non-empty field list, an \<open>arraySize\<close> from 0 up to the
  longest array there is, and a seed \<open>\<ge> 0\<close> that selects a field not named
  \<^verbatim>\<open>__proto__\<close>. Then the function built by
  \<^verbatim>\<open>getTopLevelArraySingleFieldPerDocumentGenerator\<close> returns a document with exactly
  one key, the field at index \<open>seed mod length fieldList\<close>, bound to
  \<open>[0, \<dots>, arraySize - 1]\<close>; every other field of the list is absent.
\<close>

theorem rotating_generator:
  assumes "fieldList \<noteq> []" and "0 \<le> arraySize" and "arraySize < 2 ^ 32" and "0 \<le> seed"
    and "fieldList ! (nat seed mod length fieldList) \<noteq> ''__proto__''"
  shows "\<exists>g doc. getTopLevelArraySingleFieldPerDocumentGenerator fieldList arraySize = Inr g
           \<and> g seed = Inr (JObj doc)
           \<and> doc = [(fieldList ! (nat seed mod length fieldList),
                      JArr (map (\<lambda>j. JNum (int j)) [0..<nat arraySize]))]
           \<and> (\<forall>f \<in> set fieldList.
                 f \<noteq> fieldList ! (nat seed mod length fieldList) \<longrightarrow> getField doc f = JUndef)"
  using assms
  by (simp add: getTopLevelArraySingleFieldPerDocumentGenerator_def Let_def keyAt_rem)

theorem rotating_generator_witness:
  "[''x'', ''y''] \<noteq> [] \<and> (0::int) \<le> 3 \<and> (3::int) < 2 ^ 32
   \<and> [''x'', ''y''] ! (nat 3 mod length [''x'', ''y'']) \<noteq> ''__proto__''
   \<and> (\<exists>g. getTopLevelArraySingleFieldPerDocumentGenerator [''x'', ''y''] 3 = Inr g
          \<and> g 3 = Inr (JObj [(''y'', JArr [JNum 0, JNum 1, JNum 2])])
          \<and> getField [(''y'', JArr [JNum 0, JNum 1, JNum 2])] ''x'' = JUndef)"
proof -
  have n: "nat 3 mod length [''x'', ''y''] = 1" by code_simp
  have u: "[0..<nat 3] = [0, 1, 2]" by (simp add: upt_conv_Cons)
  have h: "[''x'', ''y''] \<noteq> []" "(0::int) \<le> 3" "(3::int) < 2 ^ 32" "(0::int) \<le> 3"
    "[''x'', ''y''] ! (nat 3 mod length [''x'', ''y'']) \<noteq> ''__proto__''"
    unfolding n by simp_all
  from rotating_generator [OF h]
  obtain g where "getTopLevelArraySingleFieldPerDocumentGenerator [''x'', ''y''] 3 = Inr g"
    and "g 3 = Inr (JObj [([''x'', ''y''] ! (nat 3 mod length [''x'', ''y'']),
                      JArr (map (\<lambda>j. JNum (int j)) [0..<nat 3]))])"
    by auto
  then have "\<exists>g. getTopLevelArraySingleFieldPerDocumentGenerator [''x'', ''y''] 3 = Inr g
          \<and> g 3 = Inr (JObj [(''y'', JArr [JNum 0, JNum 1, JNum 2])])
          \<and> getField [(''y'', JArr [JNum 0, JNum 1, JNum 2])] ''x'' = JUndef"
    unfolding n u by simp
  with h show ?thesis by simp
qed

text \<open>
  The claim as stated fails where the selected field is named \<^verbatim>\<open>__proto__\<close>: the
  assignment \<^verbatim>\<open>doc["__proto__"] = value\<close> makes the array the prototype of the
  document and defines no key, so the document returned has no key at all.
\<close>

theorem rotating_generator_counterexample:
  "applyGenerator (getTopLevelArraySingleFieldPerDocumentGenerator [''__proto__''] 3) 0
     = Inr (JObjP (JArr [JNum 0, JNum 1, JNum 2]) [])"
  by (simp add: applyGenerator_def getTopLevelArraySingleFieldPerDocumentGenerator_def Let_def
      js_rem_def keyAt_def upt_conv_Cons)

section \<open>The array generators of the sibling script\<close>

text \<open>
  The sibling's rotating generator inserts the documents itself; document \<open>i\<close> has the
  single key \<open>fieldList ! (i mod length fieldList)\<close>, as in wildcard_index_query.js.
\<close>

lemma rotateInsert_docs:
  assumes "fieldList \<noteq> []" and "''__proto__'' \<notin> set fieldList" and "k < length fieldList"
  shows "docs (fst (rotateInsert fieldList arraySize n (c, int k)))
           = docs c @ map (\<lambda>i. JObj [(fieldList ! ((k + i) mod length fieldList),
                                        JArr (map (\<lambda>j. JNum (int j)) [0..<nat arraySize]))])
                        [0..<n]"
  using assms(3)
proof (induction n arbitrary: c k)
  case 0
  show ?case by simp
next
  case (Suc n)
  let ?len = "length fieldList"
  have len: "0 < int ?len" using assms(1) by simp
  have key: "keyAt fieldList (int k) = fieldList ! k"
    using Suc.prems by (simp add: keyAt_def)
  have own: "fieldList ! k \<noteq> ''__proto__''"
    using Suc.prems assms(2) by (metis nth_mem)
  have "js_rem (int k + 1) (int ?len) = (int k + 1) mod int ?len"
    using len by (intro js_rem_nonneg) simp_all
  also have "\<dots> = int (Suc k mod ?len)" by (simp add: zmod_int add.commute)
  finally have nxt: "js_rem (int k + 1) (int ?len) = int (Suc k mod ?len)" .
  have lt: "Suc k mod ?len < ?len" using assms(1) by simp
  have shift: "\<And>i. (Suc k mod ?len + i) mod ?len = (k + Suc i) mod ?len"
    by (metis add_Suc add_Suc_right mod_add_left_eq)
  have "map (\<lambda>i. JObj [(fieldList ! ((k + i) mod ?len),
                          JArr (map (\<lambda>j. JNum (int j)) [0..<nat arraySize]))]) [0..<Suc n]
        = JObj [(fieldList ! k, JArr (map (\<lambda>j. JNum (int j)) [0..<nat arraySize]))]
          # map (\<lambda>i. JObj [(fieldList ! ((Suc k mod ?len + i) mod ?len),
                          JArr (map (\<lambda>j. JNum (int j)) [0..<nat arraySize]))]) [0..<n]"
    using Suc.prems by (simp add: upt_conv_Cons map_Suc_upt [symmetric] shift del: upt_Suc)
  then show ?case
    using Suc.IH [OF lt] key nxt own by (simp add: insertDoc_def del: upt_Suc)
qed

lemma sibling_rotating_generator:
  assumes "fieldList \<noteq> []" and "''__proto__'' \<notin> set fieldList" and "arraySize < 2 ^ 32"
    and "documentCount \<le> 2 ^ 53"
  shows "\<exists>g. getTopLevelArraySingleFieldPerDocumentGenerator_sib fieldList documentCount arraySize = Inr g
           \<and> g c = Inr (c\<lparr>docs := docs c @
                  map (\<lambda>i. JObj [(fieldList ! (i mod length fieldList),
                                   JArr (map (\<lambda>j. JNum (int j)) [0..<nat arraySize]))])
                    [0..<nat documentCount]\<rparr>)"
proof -
  have k: "0 < length fieldList" using assms(1) by simp
  have i: "\<And>n c k. indexes (fst (rotateInsert fieldList arraySize n (c, k))) = indexes c"
  proof -
    fix n c k show "indexes (fst (rotateInsert fieldList arraySize n (c, k))) = indexes c"
      by (induction n arbitrary: c k) (simp_all add: insertDoc_def)
  qed
  have "docs (fst (rotateInsert fieldList arraySize (nat documentCount) (c, int 0)))
          = docs c @ map (\<lambda>i. JObj [(fieldList ! ((0 + i) mod length fieldList),
                                   JArr (map (\<lambda>j. JNum (int j)) [0..<nat arraySize]))])
                    [0..<nat documentCount]"
    using assms(1,2) k by (rule rotateInsert_docs)
  then have "fst (rotateInsert fieldList arraySize (nat documentCount) (c, 0))
          = c\<lparr>docs := docs c @
                  map (\<lambda>i. JObj [(fieldList ! (i mod length fieldList),
                                   JArr (map (\<lambda>j. JNum (int j)) [0..<nat arraySize]))])
                    [0..<nat documentCount]\<rparr>"
    using i [of "nat documentCount" c 0] by (intro collection.equality) simp_all
  with assms(1) show ?thesis
    by (simp add: getTopLevelArraySingleFieldPerDocumentGenerator_sib_def)
qed

text \<open>
  The sibling's shared-array generator is another variant: its array has \<open>arraySize\<close>
  numbers spaced by 10, from \<open>i - 5 * arraySize\<close> on (here for the first document,
  \<open>i = 0\<close>).
\<close>

lemma stepsOfTen_run:
  "stepsOfTen lo (lo + 10 * int n) = map (\<lambda>t. lo + 10 * int t) [0..<n]"
proof (induction n arbitrary: lo)
  case 0
  show ?case by (subst stepsOfTen.simps) simp
next
  case (Suc n)
  have "stepsOfTen lo (lo + 10 * int (Suc n)) = lo # stepsOfTen (lo + 10) (lo + 10 + 10 * int n)"
    by (subst stepsOfTen.simps) (simp add: algebra_simps)
  also have "\<dots> = lo # map (\<lambda>t. lo + 10 + 10 * int t) [0..<n]"
    by (simp only: Suc.IH)
  also have "\<dots> = map (\<lambda>t. lo + 10 * int t) [0..<Suc n]"
    by (simp add: upt_conv_Cons map_Suc_upt [symmetric] algebra_simps del: upt_Suc)
  finally show ?case .
qed

lemma sibling_array_generator:
  assumes "fieldList \<noteq> []" and "''__proto__'' \<notin> set fieldList"
    and "0 \<le> arraySize" and "arraySize < 2 ^ 32"
  shows "\<exists>g. getTopLevelArrayDocumentGenerator fieldList 1 arraySize = Inr g
           \<and> g c = Inr (insertDoc
                  (JObj (foldl (\<lambda>doc f. setField doc f
                     (JArr (map (\<lambda>t. JNum (- (5 * arraySize) + 10 * int t)) [0..<nat arraySize])))
                     [] fieldList)) c)"
proof -
  have "stepsOfTen (- (5 * arraySize)) (5 * arraySize)
          = map (\<lambda>t. - (5 * arraySize) + 10 * int t) [0..<nat arraySize]"
    using stepsOfTen_run [of "- (5 * arraySize)" "nat arraySize"] assms(3) by simp
  moreover have "\<bar>arraySize * 10 div 2\<bar> + int 0 + 10 \<le> 2 ^ 53"
    using assms(3,4) by simp
  ultimately show ?thesis
    using assms(1,2)
    by (simp add: getTopLevelArrayDocumentGenerator_def Let_def comp_def assign_all)
qed

section \<open>Setting a value at a dotted path\<close>

lemma setDotted_segs:
  "setDottedFieldToValue object (JStr p) val = setSegs object (split_dot p) val"
proof (induction p arbitrary: object rule: length_induct)
  case (1 p)
  show ?case
  proof (cases "length (split_dot p) = 1")
    case True
    then have "split_dot p = [p]" by (rule split_dot_single)
    then show ?thesis by (subst setDottedFieldToValue.simps(1)) simp
  next
    case False
    let ?rest = "drop (length (hd (split_dot p)) + 1) p"
    from False have "0 < length p" by (auto dest!: split_dot_several_nonempty)
    then have "length ?rest < length p" by simp
    with 1 have ih: "\<And>v. setDottedFieldToValue v (JStr ?rest) val = setSegs v (split_dot ?rest) val"
      by blast
    have tl: "split_dot ?rest = tl (split_dot p)" using False by (rule split_dot_slice)
    obtain k ks where sp: "split_dot p = k # ks" "ks \<noteq> []"
      using False split_dot_not_Nil [of p] by (cases "split_dot p") auto
    then obtain k' ks' where ks: "ks = k' # ks'" by (cases ks) auto
    show ?thesis
      using False ih tl sp ks
      by (subst setDottedFieldToValue.simps(1)) (auto simp: Let_def split: sum.splits)
  qed
qed

lemma setField_twice: "setField (setField kvs k a) k b = setField kvs k b"
  by (induction kvs) auto

text \<open>One step of the walk on a mapping, for a key other than \<^verbatim>\<open>__proto__\<close>.\<close>

lemma setSegs_object_last:
  "k \<noteq> ''__proto__'' \<Longrightarrow> setSegs (JObj kvs) [k] val = Inr (JObj (setField kvs k val))"
  by simp

lemma setSegs_object_step:
  assumes "k \<noteq> ''__proto__''" and "ks \<noteq> []"
  shows "setSegs (JObj kvs) (k # ks) val =
           (case setSegs (descend kvs k) ks val of
              Inl e \<Rightarrow> Inl e
            | Inr c \<Rightarrow> Inr (JObj (setField kvs k c)))"
proof -
  obtain k' ks' where ks: "ks = k' # ks'" using assms(2) by (cases ks) auto
  show ?thesis
    using assms(1) unfolding ks descend_def
    by (auto simp: getField_setField_same setField_twice split: sum.splits)
qed




lemma getPath_JUndef: "getPath JUndef ts = JUndef"
  by (cases ts) simp_all

lemma getPath_scalar: "typeof v \<noteq> ''object'' \<Longrightarrow> ts \<noteq> [] \<Longrightarrow> getPath v ts = JUndef"
  by (cases v; cases ts) simp_all

lemma getPath_empty_object: "ts \<noteq> [] \<Longrightarrow> getPath (JObj []) ts = JUndef"
  by (cases ts) (simp_all add: getPath_JUndef)



section \<open>The scalar generator\<close>

lemma plain_getField: "plain (JObj kvs) \<Longrightarrow> plain (getField kvs k)"
  by (induction kvs) auto

lemma plain_setField: "plain (JObj kvs) \<Longrightarrow> plain v \<Longrightarrow> plain (JObj (setField kvs k v))"
  by (induction kvs) (fastforce split: if_splits)+

lemma plain_descend:
  assumes "plain (JObj kvs)"
  shows "\<exists>c. descend kvs k = JObj c \<and> plain (JObj c)"
proof -
  have "plain (getField kvs k)" using assms by (rule plain_getField)
  then show ?thesis unfolding descend_def by (cases "getField kvs k") auto
qed

lemma setSegs_plain:
  "plain (JObj kvs) \<Longrightarrow> plain val \<Longrightarrow> ''__proto__'' \<notin> set segs \<Longrightarrow>
     \<exists>kvs'. setSegs (JObj kvs) segs val = Inr (JObj kvs') \<and> plain (JObj kvs')"
proof (induction segs arbitrary: kvs)
  case Nil
  then show ?case by simp
next
  case (Cons k ks)
  have k: "k \<noteq> ''__proto__''" using Cons.prems(3) by auto
  show ?case
  proof (cases "ks = []")
    case True
    have "plain (JObj (setField kvs k val))" using Cons.prems(1,2) by (rule plain_setField)
    with True k show ?thesis by simp
  next
    case False
    obtain c where c: "descend kvs k = JObj c" and pc: "plain (JObj c)"
      using plain_descend [OF Cons.prems(1)] by blast
    obtain c' where r: "setSegs (JObj c) ks val = Inr (JObj c')" and pc': "plain (JObj c')"
      using Cons.IH [OF pc Cons.prems(2)] Cons.prems(3) by auto
    have "setSegs (JObj kvs) (k # ks) val = Inr (JObj (setField kvs k (JObj c')))"
      by (simp add: setSegs_object_step [OF k False] c r)
    moreover have "plain (JObj (setField kvs k (JObj c')))"
      using Cons.prems(1) pc' by (rule plain_setField)
    ultimately show ?thesis by blast
  qed
qed

lemma getPath_setSegs_same:
  "plain (JObj kvs) \<Longrightarrow> plain val \<Longrightarrow> ''__proto__'' \<notin> set segs \<Longrightarrow> segs \<noteq> [] \<Longrightarrow>
     setSegs (JObj kvs) segs val = Inr (JObj kvs') \<Longrightarrow> getPath (JObj kvs') segs = val"
proof (induction segs arbitrary: kvs kvs')
  case Nil
  then show ?case by simp
next
  case (Cons k ks)
  have k: "k \<noteq> ''__proto__''" using Cons.prems(3) by auto
  show ?case
  proof (cases "ks = []")
    case True
    with Cons.prems(5) k show ?thesis by (auto simp: getField_setField_same)
  next
    case False
    obtain c where c: "descend kvs k = JObj c" and pc: "plain (JObj c)"
      using plain_descend [OF Cons.prems(1)] by blast
    obtain c' where r: "setSegs (JObj c) ks val = Inr (JObj c')"
      using setSegs_plain [OF pc Cons.prems(2), of ks] Cons.prems(3) by auto
    have o: "kvs' = setField kvs k (JObj c')"
      using Cons.prems(5) by (simp add: setSegs_object_step [OF k False] c r)
    have "getPath (JObj c') ks = val"
      using Cons.IH [OF pc Cons.prems(2) _ False r] Cons.prems(3) by simp
    with o show ?thesis by (simp add: getField_setField_same)
  qed
qed

lemma getPath_setSegs_other:
  "plain (JObj kvs) \<Longrightarrow> plain val \<Longrightarrow> ''__proto__'' \<notin> set segs \<Longrightarrow>
     setSegs (JObj kvs) segs val = Inr (JObj kvs') \<Longrightarrow> \<not> prefix segs t \<Longrightarrow> \<not> prefix t segs \<Longrightarrow>
     getPath (JObj kvs') t = getPath (JObj kvs) t"
proof (induction segs arbitrary: kvs kvs' t)
  case Nil
  then show ?case by simp
next
  case (Cons k ks)
  have k: "k \<noteq> ''__proto__''" using Cons.prems(3) by auto
  from Cons.prems(6) obtain k2 ts where t: "t = k2 # ts" by (cases t) auto
  show ?case
  proof (cases "ks = []")
    case True
    with Cons.prems(5) t have "k2 \<noteq> k" by auto
    with Cons.prems(4) True k t show ?thesis by (auto simp: getField_setField_other)
  next
    case False
    obtain c where c: "descend kvs k = JObj c" and pc: "plain (JObj c)"
      using plain_descend [OF Cons.prems(1)] by blast
    obtain c' where r: "setSegs (JObj c) ks val = Inr (JObj c')"
      using setSegs_plain [OF pc Cons.prems(2), of ks] Cons.prems(3) by auto
    have o: "kvs' = setField kvs k (JObj c')"
      using Cons.prems(4) by (simp add: setSegs_object_step [OF k False] c r)
    show ?thesis
    proof (cases "k2 = k")
      case False
      with o t show ?thesis by (simp add: getField_setField_other)
    next
      case True
      with t Cons.prems(5,6) have np: "\<not> prefix ks ts" "\<not> prefix ts ks" by auto
      then have ne: "ts \<noteq> []" by auto
      have ih: "getPath (JObj c') ts = getPath (JObj c) ts"
        using Cons.IH [OF pc Cons.prems(2) _ r np] Cons.prems(3) by simp
      have "getPath (JObj c) ts = getPath (getField kvs k) ts"
      proof (cases "typeof (getField kvs k) \<noteq> ''object''")
        case True
        with c have "c = []" by (simp add: descend_def)
        with True ne show ?thesis by (simp add: getPath_scalar getPath_empty_object)
      next
        case False
        with c show ?thesis by (simp add: descend_def)
      qed
      with ih o t True show ?thesis by (simp add: getField_setField_same)
    qed
  qed
qed

lemma set_all_paths:
  assumes "plain (JObj doc)"
    and "\<forall>p \<in> set fs. ''__proto__'' \<notin> set (split_dot p)"
    and "\<forall>p \<in> set fs. \<forall>q \<in> set fs. prefix (split_dot p) (split_dot q) \<longrightarrow> split_dot p = split_dot q"
  shows "\<exists>doc'. foldE (\<lambda>f d. setDottedFieldToValue d (JStr f) (JNum seed)) fs (JObj doc)
                   = Inr (JObj doc')
           \<and> plain (JObj doc')
           \<and> (\<forall>p \<in> set fs. getPath (JObj doc') (split_dot p) = JNum seed)
           \<and> (\<forall>t. (\<forall>p \<in> set fs. \<not> prefix (split_dot p) t \<and> \<not> prefix t (split_dot p)) \<longrightarrow>
                  getPath (JObj doc') t = getPath (JObj doc) t)"
  using assms
proof (induction fs arbitrary: doc)
  case Nil
  then show ?case by simp
next
  case (Cons f fs)
  have pv: "plain (JNum seed)" by simp
  have nf: "''__proto__'' \<notin> set (split_dot f)" using Cons.prems(2) by simp
  obtain doc1 where s1: "setSegs (JObj doc) (split_dot f) (JNum seed) = Inr (JObj doc1)"
    and p1: "plain (JObj doc1)"
    using setSegs_plain [OF Cons.prems(1) pv nf] by blast
  have np: "\<forall>p \<in> set fs. ''__proto__'' \<notin> set (split_dot p)"
    using Cons.prems(2) by simp
  have pf: "\<forall>p \<in> set fs. \<forall>q \<in> set fs. prefix (split_dot p) (split_dot q) \<longrightarrow> split_dot p = split_dot q"
    using Cons.prems(3) by simp
  obtain doc' where f': "foldE (\<lambda>f d. setDottedFieldToValue d (JStr f) (JNum seed)) fs (JObj doc1)
                           = Inr (JObj doc')"
    and p': "plain (JObj doc')"
    and same: "\<forall>p \<in> set fs. getPath (JObj doc') (split_dot p) = JNum seed"
    and other: "\<forall>t. (\<forall>p \<in> set fs. \<not> prefix (split_dot p) t \<and> \<not> prefix t (split_dot p)) \<longrightarrow>
                  getPath (JObj doc') t = getPath (JObj doc1) t"
    using Cons.IH [OF p1 np pf] by blast
  have run: "foldE (\<lambda>f d. setDottedFieldToValue d (JStr f) (JNum seed)) (f # fs) (JObj doc)
               = Inr (JObj doc')"
    using s1 f' by (simp add: setDotted_segs)
  have at_f: "getPath (JObj doc1) (split_dot f) = JNum seed"
    using Cons.prems(1) pv nf split_dot_not_Nil s1 by (rule getPath_setSegs_same)
  have f_holds: "getPath (JObj doc') (split_dot f) = JNum seed"
  proof (cases "\<exists>p \<in> set fs. split_dot p = split_dot f")
    case True
    with same show ?thesis by metis
  next
    case False
    have "\<forall>p \<in> set fs. \<not> prefix (split_dot p) (split_dot f) \<and> \<not> prefix (split_dot f) (split_dot p)"
    proof
      fix p assume p: "p \<in> set fs"
      with False have ne: "split_dot p \<noteq> split_dot f" by blast
      from p Cons.prems(3) have
        "prefix (split_dot p) (split_dot f) \<longrightarrow> split_dot p = split_dot f"
        "prefix (split_dot f) (split_dot p) \<longrightarrow> split_dot f = split_dot p"
        by simp_all
      with ne show "\<not> prefix (split_dot p) (split_dot f) \<and> \<not> prefix (split_dot f) (split_dot p)"
        by auto
    qed
    with other at_f show ?thesis by simp
  qed
  have keep: "\<forall>t. (\<forall>p \<in> set (f # fs). \<not> prefix (split_dot p) t \<and> \<not> prefix t (split_dot p)) \<longrightarrow>
                  getPath (JObj doc') t = getPath (JObj doc) t"
  proof (intro allI impI)
    fix t assume a: "\<forall>p \<in> set (f # fs). \<not> prefix (split_dot p) t \<and> \<not> prefix t (split_dot p)"
    then have "getPath (JObj doc') t = getPath (JObj doc1) t" using other by simp
    also have "\<dots> = getPath (JObj doc) t"
    proof (rule getPath_setSegs_other [OF Cons.prems(1) pv nf s1])
      show "\<not> prefix (split_dot f) t" using a by simp
      show "\<not> prefix t (split_dot f)" using a by simp
    qed
    finally show "getPath (JObj doc') t = getPath (JObj doc) t" .
  qed
  from run p' same f_holds keep show ?case by simp
qed

text \<open>
  C6, as the code has it. Take a non-empty field list in which no path has a segment
  named \<^verbatim>\<open>__proto__\<close> and no path is a proper dotted prefix of another (two paths with
  the same segments are allowed). Then at every seed the scalar generator returns a
  document that holds the seed at the dotted location of each path of the list, the
  dotted paths being expanded into nested mappings.
\<close>

theorem scalar_generator_prefix_free:
  assumes "fieldList \<noteq> []"
    and "\<forall>p \<in> set fieldList. ''__proto__'' \<notin> set (split_dot p)"
    and "\<forall>p \<in> set fieldList. \<forall>q \<in> set fieldList.
           prefix (split_dot p) (split_dot q) \<longrightarrow> split_dot p = split_dot q"
  shows "\<exists>doc. applyGenerator (getMultiFieldPathToIntegerDocumentGenerator fieldList) seed
                  = Inr (JObj doc)
           \<and> (\<forall>p \<in> set fieldList. getPath (JObj doc) (split_dot p) = JNum seed)"
proof -
  have "plain (JObj [])" by simp
  from set_all_paths [OF this assms(2,3), of seed]
  obtain doc where
    "foldE (\<lambda>f d. setDottedFieldToValue d (JStr f) (JNum seed)) fieldList (JObj []) = Inr (JObj doc)"
    and "\<forall>p \<in> set fieldList. getPath (JObj doc) (split_dot p) = JNum seed"
    by blast
  with assms(1) show ?thesis
    by (simp add: applyGenerator_def getMultiFieldPathToIntegerDocumentGenerator_def)
qed

theorem scalar_generator_prefix_free_witness:
  "[''a.b'', ''c''] \<noteq> []
   \<and> ''__proto__'' \<notin> set (split_dot ''a.b'') \<and> ''__proto__'' \<notin> set (split_dot ''c'')
   \<and> applyGenerator (getMultiFieldPathToIntegerDocumentGenerator [''a.b'', ''c'']) 5
       = Inr (JObj [(''a'', JObj [(''b'', JNum 5)]), (''c'', JNum 5)])
   \<and> getPath (JObj [(''a'', JObj [(''b'', JNum 5)]), (''c'', JNum 5)]) (split_dot ''a.b'') = JNum 5
   \<and> getPath (JObj [(''a'', JObj [(''b'', JNum 5)]), (''c'', JNum 5)]) (split_dot ''c'') = JNum 5"
proof -
  have ne: "[''a.b'', ''c''] \<noteq> []" by simp
  have np: "\<forall>p \<in> set [''a.b'', ''c'']. ''__proto__'' \<notin> set (split_dot p)" by simp
  have pf: "\<forall>p \<in> set [''a.b'', ''c'']. \<forall>q \<in> set [''a.b'', ''c''].
           prefix (split_dot p) (split_dot q) \<longrightarrow> split_dot p = split_dot q"
    by simp
  have ev: "applyGenerator (getMultiFieldPathToIntegerDocumentGenerator [''a.b'', ''c'']) 5
       = Inr (JObj [(''a'', JObj [(''b'', JNum 5)]), (''c'', JNum 5)])"
    by (simp add: applyGenerator_def getMultiFieldPathToIntegerDocumentGenerator_def
        setDotted_segs)
  from scalar_generator_prefix_free [OF ne np pf, of 5] ev
  have "\<forall>p \<in> set [''a.b'', ''c''].
          getPath (JObj [(''a'', JObj [(''b'', JNum 5)]), (''c'', JNum 5)]) (split_dot p) = JNum 5"
    by simp
  with ev np show ?thesis by simp
qed

text \<open>
  Without the second condition the statement fails: for the field list
  \<^verbatim>\<open>["a", "a.b"]\<close> and seed 5 the generator first sets \<^verbatim>\<open>a\<close> to 5 and then overwrites
  it by the mapping \<^verbatim>\<open>{b: 5}\<close>, so the path \<^verbatim>\<open>a\<close> does not hold the seed.
\<close>

theorem scalar_generator_counterexample:
  "applyGenerator (getMultiFieldPathToIntegerDocumentGenerator [''a'', ''a.b'']) 5
       = Inr (JObj [(''a'', JObj [(''b'', JNum 5)])])
   \<and> getPath (JObj [(''a'', JObj [(''b'', JNum 5)])]) (split_dot ''a'') \<noteq> JNum 5"
  by (simp add: applyGenerator_def getMultiFieldPathToIntegerDocumentGenerator_def
      setDotted_segs)

text \<open>
  Without the first condition it fails as well: the assignment \<^verbatim>\<open>doc["__proto__"] = 5\<close>
  is ignored, a number being no prototype, and the document stays empty.
\<close>

lemma scalar_generator_proto:
  "applyGenerator (getMultiFieldPathToIntegerDocumentGenerator [''__proto__'']) 5 = Inr (JObj [])"
  by (simp add: applyGenerator_def getMultiFieldPathToIntegerDocumentGenerator_def
      setDotted_segs)

section \<open>Scalars on the way of a dotted path\<close>





section \<open>What the call returns\<close>






section \<open>The comparison-case builder\<close>

lemma createTargetedIndexes_accepted:
  assumes "\<forall>spec opts. accepts spec opts"
  shows "createTargetedIndexes accepts fieldsToIndex c =
           Inr (c\<lparr>indexes := indexes c @
                  map (\<lambda>f. (assign (JObj []) f (JNum 1), JObj [(''sparse'', JBool True)])) fieldsToIndex\<rparr>)"
  unfolding createTargetedIndexes_def using assms
  by (induction fieldsToIndex arbitrary: c) (simp_all add: createIndexChecked_def)

lemma createWildcardIndex_accepted:
  assumes "\<forall>spec opts. accepts spec opts"
  shows "createWildcardIndex accepts fieldsToIndex c =
           Inr (c\<lparr>indexes := indexes c @
                  [(JObj [(''$**'', JNum 1)],
                    if 0 < length fieldsToIndex
                    then JObj [(''wildcardProjection'',
                                foldl (\<lambda>pr f. assign pr f (JNum 1)) (JObj []) fieldsToIndex)]
                    else JUndef)]\<rparr>)"
  using assms by (simp add: createWildcardIndex_def createIndexChecked_def Let_def)

lemma index_lists_differ:
  assumes "opts \<noteq> JObj [(''sparse'', JBool True)]"
  shows "[(JObj [(''$**'', JNum 1)], opts)]
           \<noteq> map (\<lambda>f. (assign (JObj []) f (JNum 1), JObj [(''sparse'', JBool True)])) fieldsToIndex"
proof (cases fieldsToIndex)
  case Nil
  then show ?thesis by simp
next
  case (Cons f fs)
  with assms show ?thesis by auto
qed

lemma setups_differ:
  assumes acc: "\<forall>spec opts. accepts spec opts"
  shows "(case r of Inl e \<Rightarrow> Inl e | Inr c' \<Rightarrow> createWildcardIndex accepts fieldsToIndex c')
           \<noteq> (case r of Inl e \<Rightarrow> Inl e | Inr c' \<Rightarrow> createTargetedIndexes accepts fieldsToIndex c')
         \<or> (\<exists>e. r = Inl e)"
proof (cases r)
  case (Inl e)
  then show ?thesis by simp
next
  case (Inr c')
  define opts where "opts = (if 0 < length fieldsToIndex
                    then JObj [(''wildcardProjection'',
                                foldl (\<lambda>pr f. assign pr f (JNum 1)) (JObj []) fieldsToIndex)]
                    else JUndef)"
  have w: "createWildcardIndex accepts fieldsToIndex c' =
           Inr (c'\<lparr>indexes := indexes c' @ [(JObj [(''$**'', JNum 1)], opts)]\<rparr>)"
    unfolding opts_def by (rule createWildcardIndex_accepted [OF acc])
  have o: "opts \<noteq> JObj [(''sparse'', JBool True)]"
    by (simp add: opts_def)
  have "indexes (c'\<lparr>indexes := indexes c' @ [(JObj [(''$**'', JNum 1)], opts)]\<rparr>)
         \<noteq> indexes (c'\<lparr>indexes := indexes c' @
                  map (\<lambda>f. (assign (JObj []) f (JNum 1), JObj [(''sparse'', JBool True)])) fieldsToIndex\<rparr>)"
    using index_lists_differ [OF o] by simp
  then have "c'\<lparr>indexes := indexes c' @ [(JObj [(''$**'', JNum 1)], opts)]\<rparr>
         \<noteq> c'\<lparr>indexes := indexes c' @
                  map (\<lambda>f. (assign (JObj []) f (JNum 1), JObj [(''sparse'', JBool True)])) fieldsToIndex\<rparr>"
    by metis
  with Inr w show ?thesis by (simp add: createTargetedIndexes_accepted [OF acc])
qed

text \<open>
  C7. A call to \<^verbatim>\<open>makeComparisonReadTest\<close> (in either script) appends exactly two
  records to the registry. They have the same \<open>ops\<close> and the same \<open>tags\<close>; the name of the
  second is the name of the first followed by \<^verbatim>\<open>.Baseline\<close>; the first record's \<open>pre\<close> is
  the wildcard-index setup and the second's the targeted-index setup. Where the store
  accepts the indexes and the collection can be populated, the two setups leave
  different collections.
\<close>

theorem comparison_builder_appends_pair:
  "makeComparisonReadTest accepts nm fieldsToIndex operationList dg documentCount tests =
     tests @
     [\<lparr>name = ''Queries.WildcardIndex.'' @ nm,
       tags = [''wildcard_read'', ''indexed'', ''>=4.1.3'', ''regression''],
       pre = getSetupFunctionWithWildcardIndex accepts fieldsToIndex dg documentCount,
       ops = operationList\<rparr>,
      \<lparr>name = ''Queries.WildcardIndex.'' @ nm @ ''.Baseline'',
       tags = [''wildcard_read'', ''indexed'', ''>=4.1.3'', ''regression''],
       pre = getSetupFunctionForTargetedIndex accepts fieldsToIndex dg documentCount,
       ops = operationList\<rparr>]
   \<and> makeComparisonReadTest_sib accepts nm fieldsToIndex operationList dg' documentCount' tests =
     tests @
     [\<lparr>name = ''Queries.WildcardIndex.'' @ nm,
       tags = [''wildcard'', ''query'', ''indexed'', ''regression''],
       pre = getSetupFunctionWithWildcardIndex_sib accepts fieldsToIndex dg' documentCount',
       ops = operationList\<rparr>,
      \<lparr>name = ''Queries.WildcardIndex.'' @ nm @ ''.Baseline'',
       tags = [''wildcard'', ''query'', ''indexed'', ''regression''],
       pre = getSetupFunctionForTargetedIndex_sib accepts fieldsToIndex dg' documentCount',
       ops = operationList\<rparr>]
   \<and> ((\<forall>spec opts. accepts spec opts) \<longrightarrow>
        (populateCollection dg (dropCollection c) documentCount = Inr c1 \<longrightarrow>
           getSetupFunctionWithWildcardIndex accepts fieldsToIndex dg documentCount c
             \<noteq> getSetupFunctionForTargetedIndex accepts fieldsToIndex dg documentCount c)
        \<and> (dg' (dropCollection c) documentCount' = Inr c1 \<longrightarrow>
           getSetupFunctionWithWildcardIndex_sib accepts fieldsToIndex dg' documentCount' c
             \<noteq> getSetupFunctionForTargetedIndex_sib accepts fieldsToIndex dg' documentCount' c))"
proof (intro conjI impI)
  show "makeComparisonReadTest accepts nm fieldsToIndex operationList dg documentCount tests =
     tests @
     [\<lparr>name = ''Queries.WildcardIndex.'' @ nm,
       tags = [''wildcard_read'', ''indexed'', ''>=4.1.3'', ''regression''],
       pre = getSetupFunctionWithWildcardIndex accepts fieldsToIndex dg documentCount,
       ops = operationList\<rparr>,
      \<lparr>name = ''Queries.WildcardIndex.'' @ nm @ ''.Baseline'',
       tags = [''wildcard_read'', ''indexed'', ''>=4.1.3'', ''regression''],
       pre = getSetupFunctionForTargetedIndex accepts fieldsToIndex dg documentCount,
       ops = operationList\<rparr>]"
    by (simp add: makeComparisonReadTest_def addReadTest_def)
next
  show "makeComparisonReadTest_sib accepts nm fieldsToIndex operationList dg' documentCount' tests =
     tests @
     [\<lparr>name = ''Queries.WildcardIndex.'' @ nm,
       tags = [''wildcard'', ''query'', ''indexed'', ''regression''],
       pre = getSetupFunctionWithWildcardIndex_sib accepts fieldsToIndex dg' documentCount',
       ops = operationList\<rparr>,
      \<lparr>name = ''Queries.WildcardIndex.'' @ nm @ ''.Baseline'',
       tags = [''wildcard'', ''query'', ''indexed'', ''regression''],
       pre = getSetupFunctionForTargetedIndex_sib accepts fieldsToIndex dg' documentCount',
       ops = operationList\<rparr>]"
    by (simp add: makeComparisonReadTest_sib_def addTest_def)
next
  assume acc: "\<forall>spec opts. accepts spec opts"
    and pop: "populateCollection dg (dropCollection c) documentCount = Inr c1"
  show "getSetupFunctionWithWildcardIndex accepts fieldsToIndex dg documentCount c
             \<noteq> getSetupFunctionForTargetedIndex accepts fieldsToIndex dg documentCount c"
    using setups_differ [OF acc, where r = "populateCollection dg (dropCollection c) documentCount"
        and fieldsToIndex = fieldsToIndex] pop
    by (simp add: getSetupFunctionWithWildcardIndex_def getSetupFunctionForTargetedIndex_def)
next
  assume acc: "\<forall>spec opts. accepts spec opts"
    and pop: "dg' (dropCollection c) documentCount' = Inr c1"
  show "getSetupFunctionWithWildcardIndex_sib accepts fieldsToIndex dg' documentCount' c
             \<noteq> getSetupFunctionForTargetedIndex_sib accepts fieldsToIndex dg' documentCount' c"
    using setups_differ [OF acc, where r = "dg' (dropCollection c) documentCount'"
        and fieldsToIndex = fieldsToIndex] pop
    by (simp add: getSetupFunctionWithWildcardIndex_sib_def getSetupFunctionForTargetedIndex_sib_def)
qed


theorem comparison_builder_appends_pair_witness:
  "(\<forall>spec opts. acceptAll spec opts)
   \<and> (\<exists>g c1. getMultiFieldPathToIntegerDocumentGenerator [''field-0''] = Inr g
         \<and> populateCollection g (dropCollection \<lparr>docs = [], indexes = []\<rparr>) 2 = Inr c1
         \<and> map name (makeComparisonReadTest acceptAll ''PointQueryOnSingleField'' [''field-0'']
                        (getPointQueryList [''field-0''] 100) g 2 [])
             = [''Queries.WildcardIndex.PointQueryOnSingleField'',
                ''Queries.WildcardIndex.PointQueryOnSingleField.Baseline'']
         \<and> getSetupFunctionWithWildcardIndex acceptAll [''field-0''] g 2 \<lparr>docs = [], indexes = []\<rparr>
             \<noteq> getSetupFunctionForTargetedIndex acceptAll [''field-0''] g 2 \<lparr>docs = [], indexes = []\<rparr>)"
proof -
  have acc: "\<forall>spec opts. acceptAll spec opts" by (simp add: acceptAll_def)
  obtain g where g: "getMultiFieldPathToIntegerDocumentGenerator [''field-0''] = Inr g"
    by (simp add: getMultiFieldPathToIntegerDocumentGenerator_def)
  have g0: "g 0 = Inr (JObj [(''field-0'', JNum 0)])" and g1: "g 1 = Inr (JObj [(''field-0'', JNum 1)])"
    using g by (auto simp: getMultiFieldPathToIntegerDocumentGenerator_def
        setDottedFieldToValue.simps(1))
  have u: "[0..<nat 2] = [0, 1]" by (simp add: upt_conv_Cons)
  have pop: "populateCollection g (dropCollection \<lparr>docs = [], indexes = []\<rparr>) 2
               = Inr \<lparr>docs = [JObj [(''field-0'', JNum 0)], JObj [(''field-0'', JNum 1)]], indexes = []\<rparr>"
    unfolding populateCollection_def u by (simp add: g0 g1 dropCollection_def insertDoc_def)
  note t = comparison_builder_appends_pair [where accepts = acceptAll
      and nm = "''PointQueryOnSingleField''" and fieldsToIndex = "[''field-0'']"
      and operationList = "getPointQueryList [''field-0''] 100" and dg = g and documentCount = 2
      and tests = "[]" and c = "\<lparr>docs = [], indexes = []\<rparr>"
      and ?c1.0 = "\<lparr>docs = [JObj [(''field-0'', JNum 0)], JObj [(''field-0'', JNum 1)]], indexes = []\<rparr>"]
  from t have names: "map name (makeComparisonReadTest acceptAll ''PointQueryOnSingleField'' [''field-0'']
                        (getPointQueryList [''field-0''] 100) g 2 [])
             = [''Queries.WildcardIndex.PointQueryOnSingleField'',
                ''Queries.WildcardIndex.PointQueryOnSingleField.Baseline'']"
    by simp
  from t acc pop have diff:
    "getSetupFunctionWithWildcardIndex acceptAll [''field-0''] g 2 \<lparr>docs = [], indexes = []\<rparr>
       \<noteq> getSetupFunctionForTargetedIndex acceptAll [''field-0''] g 2 \<lparr>docs = [], indexes = []\<rparr>"
    by blast
  show ?thesis
    apply (rule conjI [OF acc])
    apply (rule exI [of _ g])
    apply (rule exI)
    apply (intro conjI)
       apply (rule g)
      apply (rule pop)
     apply (rule names)
    apply (rule diff)
    done
qed

section \<open>Range queries\<close>

lemma rangeQueries_closed_form:
  "rangeQueries gen n fl st =
     (map (\<lambda>(i, f). findOp (rangePredicate f (gen (rseed st) i (js_sub n 10))))
        (List.enumerate (rdrawn st) fl),
      st\<lparr>rdrawn := rdrawn st + length fl\<rparr>)"
  by (induction fl arbitrary: st) (simp_all add: randInt_def)

lemma rangeSortQueries_closed_form:
  "rangeSortQueries gen n fl st =
     (map (\<lambda>(i, f). findOp (JObj [(''$query'', rangePredicate f (gen (rseed st) i (js_sub n 10))),
                                  (''$orderby'', assign (JObj []) f (JNum 1))]))
        (List.enumerate (rdrawn st) fl),
      st\<lparr>rdrawn := rdrawn st + length fl\<rparr>)"
  by (induction fl arbitrary: st) (simp_all add: randInt_def)


lemma rangePredicate_own:
  "f \<noteq> ''__proto__'' \<Longrightarrow> 0 \<le> r \<Longrightarrow> r + 10 \<le> 2 ^ 53 \<Longrightarrow>
     rangePredicate f r = JObj [(f, JObj [(''$gte'', JNum r), (''$lte'', JNum (r + 10))])]"
  by (simp add: rangePredicate_def js_add_def round53_exact)

lemma rangeQueries_nth:
  assumes "i < length fl"
  shows "fst (rangeQueries gen n fl st) ! i
           = findOp (rangePredicate (fl ! i) (gen (rseed st) (rdrawn st + i) (js_sub n 10)))"
  using assms by (simp add: rangeQueries_closed_form nth_enumerate_eq)

lemma sampleGen_in_range: "\<forall>s k b. 0 < b \<longrightarrow> 0 \<le> sampleGen s k b \<and> sampleGen s k b < b"
  by (simp add: sampleGen_def)

text \<open>
  C8, as the code has it. Let the shell's generator give draws in \<open>[0, bound)\<close> for a
  positive bound, let \<open>11 \<le> numDocuments \<le> 2 ^ 53\<close>, so that the sums are exact, and let
  no field be named \<^verbatim>\<open>__proto__\<close>. Then the range-query list (of either script) has one
  entry per field, in the order of the field list, and entry \<open>i\<close> is a find whose query
  binds field \<open>i\<close> to \<^verbatim>\<open>{$gte: r, $lte: r + 10}\<close> for a draw \<open>r\<close> in
  \<open>[0, numDocuments - 10)\<close>.
\<close>

theorem range_query_list_shape:
  assumes "\<forall>s k b. 0 < b \<longrightarrow> 0 \<le> gen s k b \<and> gen s k b < b"
    and "11 \<le> numDocuments" and "numDocuments \<le> 2 ^ 53"
    and "''__proto__'' \<notin> set fieldList"
  shows "length (fst (getRangeQueryList gen fieldList numDocuments st)) = length fieldList
         \<and> length (fst (getRangeQueryList_sib gen fieldList numDocuments st)) = length fieldList
         \<and> (\<forall>i < length fieldList.
              \<exists>r r'. 0 \<le> r \<and> r < numDocuments - 10 \<and> 0 \<le> r' \<and> r' < numDocuments - 10
                \<and> fst (getRangeQueryList gen fieldList numDocuments st) ! i
                    = JObj [(''op'', JStr ''find''),
                            (''query'', JObj [(fieldList ! i,
                               JObj [(''$gte'', JNum r), (''$lte'', JNum (r + 10))])])]
                \<and> fst (getRangeQueryList_sib gen fieldList numDocuments st) ! i
                    = JObj [(''op'', JStr ''find''),
                            (''query'', JObj [(fieldList ! i,
                               JObj [(''$gte'', JNum r'), (''$lte'', JNum (r' + 10))])])])"
proof (intro conjI allI impI)
  show "length (fst (getRangeQueryList gen fieldList numDocuments st)) = length fieldList"
    by (simp add: getRangeQueryList_def rangeQueries_closed_form)
  show "length (fst (getRangeQueryList_sib gen fieldList numDocuments st)) = length fieldList"
    by (simp add: getRangeQueryList_sib_def rangeQueries_closed_form)
next
  fix i assume i: "i < length fieldList"
  then have f: "fieldList ! i \<noteq> ''__proto__''" using assms(4) by (metis nth_mem)
  have "\<bar>numDocuments - 10\<bar> \<le> 2 ^ 53" using assms(2,3) by linarith
  then have s: "js_sub numDocuments 10 = numDocuments - 10"
    by (simp add: js_sub_def round53_exact)
  have b: "0 < numDocuments - 10" using assms(2) by simp
  let ?r = "gen 11010 i (numDocuments - 10)"
  let ?r' = "gen (rseed st) (rdrawn st + i) (numDocuments - 10)"
  have r: "0 \<le> ?r \<and> ?r < numDocuments - 10" and r': "0 \<le> ?r' \<and> ?r' < numDocuments - 10"
    using assms(1) b by blast+
  have e: "?r + 10 \<le> 2 ^ 53" and e': "?r' + 10 \<le> 2 ^ 53"
    using r r' assms(3) by linarith+
  have "fst (getRangeQueryList gen fieldList numDocuments st) ! i
                    = JObj [(''op'', JStr ''find''),
                            (''query'', JObj [(fieldList ! i,
                               JObj [(''$gte'', JNum ?r), (''$lte'', JNum (?r + 10))])])]"
    using i r e
    by (simp add: getRangeQueryList_def rangeQueries_nth setRandomSeed_def s findOp_def
        rangePredicate_own [OF f])
  moreover have "fst (getRangeQueryList_sib gen fieldList numDocuments st) ! i
                    = JObj [(''op'', JStr ''find''),
                            (''query'', JObj [(fieldList ! i,
                               JObj [(''$gte'', JNum ?r'), (''$lte'', JNum (?r' + 10))])])]"
    using i r' e'
    by (simp add: getRangeQueryList_sib_def rangeQueries_nth s findOp_def
        rangePredicate_own [OF f])
  ultimately show "\<exists>r r'. 0 \<le> r \<and> r < numDocuments - 10 \<and> 0 \<le> r' \<and> r' < numDocuments - 10
                \<and> fst (getRangeQueryList gen fieldList numDocuments st) ! i
                    = JObj [(''op'', JStr ''find''),
                            (''query'', JObj [(fieldList ! i,
                               JObj [(''$gte'', JNum r), (''$lte'', JNum (r + 10))])])]
                \<and> fst (getRangeQueryList_sib gen fieldList numDocuments st) ! i
                    = JObj [(''op'', JStr ''find''),
                            (''query'', JObj [(fieldList ! i,
                               JObj [(''$gte'', JNum r'), (''$lte'', JNum (r' + 10))])])]"
    using r r' by blast
qed

theorem range_query_list_shape_witness:
  "(11::int) \<le> 100 \<and> (100::int) \<le> 2 ^ 53 \<and> ''__proto__'' \<notin> set [''a'', ''b'']
   \<and> length (fst (getRangeQueryList sampleGen [''a'', ''b''] 100 \<lparr>rseed = 1, rdrawn = 3\<rparr>)) = 2
   \<and> fst (getRangeQueryList sampleGen [''a'', ''b''] 100 \<lparr>rseed = 1, rdrawn = 3\<rparr>)
       = [JObj [(''op'', JStr ''find''),
                (''query'', JObj [(''a'', JObj [(''$gte'', JNum 30), (''$lte'', JNum 40)])])],
          JObj [(''op'', JStr ''find''),
                (''query'', JObj [(''b'', JObj [(''$gte'', JNum 37), (''$lte'', JNum 47)])])]]"
proof -
  have h: "(11::int) \<le> 100" "(100::int) \<le> 2 ^ 53" "''__proto__'' \<notin> set [''a'', ''b'']"
    by simp_all
  have "length (fst (getRangeQueryList sampleGen [''a'', ''b''] 100 \<lparr>rseed = 1, rdrawn = 3\<rparr>))
          = length [''a'', ''b'']"
    using range_query_list_shape [OF sampleGen_in_range h, of "\<lparr>rseed = 1, rdrawn = 3\<rparr>"]
    by blast
  moreover have "fst (getRangeQueryList sampleGen [''a'', ''b''] 100 \<lparr>rseed = 1, rdrawn = 3\<rparr>)
       = [JObj [(''op'', JStr ''find''),
                (''query'', JObj [(''a'', JObj [(''$gte'', JNum 30), (''$lte'', JNum 40)])])],
          JObj [(''op'', JStr ''find''),
                (''query'', JObj [(''b'', JObj [(''$gte'', JNum 37), (''$lte'', JNum 47)])])]]"
    by (simp add: getRangeQueryList_def setRandomSeed_def randInt_def sampleGen_def findOp_def
        rangePredicate_def js_sub_def js_add_def round53_exact)
  ultimately show ?thesis using h by simp
qed

text \<open>
  The claim as stated fails for a field named \<^verbatim>\<open>__proto__\<close>: the assignment
  \<^verbatim>\<open>query["__proto__"] = {$gte: ..., $lte: ...}\<close> makes the interval the prototype of
  the query, and the query sent has no field and constrains nothing.
\<close>

theorem range_query_list_counterexample:
  "fst (getRangeQueryList sampleGen [''__proto__''] 100 \<lparr>rseed = 1, rdrawn = 3\<rparr>)
     = [JObj [(''op'', JStr ''find''),
              (''query'', JObjP (JObj [(''$gte'', JNum 30), (''$lte'', JNum 40)]) [])]]"
  by (simp add: getRangeQueryList_def setRandomSeed_def randInt_def sampleGen_def findOp_def
      rangePredicate_def js_sub_def js_add_def round53_exact)

section \<open>The random stream across a build\<close>

lemma getNFieldNames_Nil_iff: "getNFieldNames n = [] \<longleftrightarrow> n \<le> 0"
  by (simp add: getNFieldNames_def)

lemma getNFieldNamesAtGivenDepth_Nil_iff: "getNFieldNamesAtGivenDepth n d = [] \<longleftrightarrow> n \<le> 0"
  by (simp add: getNFieldNamesAtGivenDepth_def getNFieldNames_def)

lemma length_getNFieldNames: "length (getNFieldNames n) = nat n"
  by (simp add: getNFieldNames_def)

lemma length_getNFieldNamesAtGivenDepth: "length (getNFieldNamesAtGivenDepth n d) = nat n"
  by (simp add: getNFieldNamesAtGivenDepth_def getNFieldNames_def)

lemma foldE_adds:
  "list_all2 adds ks stmts \<Longrightarrow>
     \<exists>g'. foldE (\<lambda>stmt g. stmt g) stmts g = Inr g' \<and> length (g_tests g') = length (g_tests g) + sum_list ks"
proof (induction ks stmts arbitrary: g rule: list_all2_induct)
  case Nil
  show ?case by simp
next
  case (Cons k ks stmt stmts)
  from Cons.hyps(1) obtain g1 where g1: "stmt g = Inr g1" "length (g_tests g1) = length (g_tests g) + k"
    unfolding adds_def by blast
  from Cons.IH [of g1] obtain g' where
    "foldE (\<lambda>stmt g. stmt g) stmts g1 = Inr g'"
    "length (g_tests g') = length (g_tests g1) + sum_list ks"
    by blast
  with g1 show ?case by simp
qed

lemma totalOps_point: "totalOps (pointOps m fl)"
  by (simp add: totalOps_def pointOps_def)

lemma totalOps_range: "totalOps (rangeOps gen fl)"
  by (simp add: totalOps_def rangeOps_def)

lemma totalOps_rangeSort: "totalOps (rangeSortOps gen fl)"
  by (simp add: totalOps_def rangeSortOps_def)

lemma totalOps_range_sib: "totalOps (rangeOps_sib gen fl)"
  by (simp add: totalOps_def rangeOps_sib_def)

lemma totalOps_rangeSort_sib: "totalOps (rangeSortOps_sib gen fl)"
  by (simp add: totalOps_def rangeSortOps_sib_def)

lemma totalOps_twoPoint: "length fl = 2 \<Longrightarrow> totalOps (twoPointOps fl)"
  by (simp add: totalOps_def twoPointOps_def getTwoPointQueryList_def Let_def)

lemma adds_comparisonStmt:
  assumes "totalOps (opsOf fl)" and "\<exists>dg. genOf fl = Inr dg"
  shows "adds 2 (comparisonStmt accepts nm fl fieldsToIndex opsOf genOf)"
  unfolding adds_def
proof
  fix g :: globals
  from assms(1) obtain l r' where "opsOf fl (g_random g) = Inr (l, r')"
    unfolding totalOps_def by blast
  moreover from assms(2) obtain dg where "genOf fl = Inr dg" ..
  ultimately show "\<exists>g'. comparisonStmt accepts nm fl fieldsToIndex opsOf genOf g = Inr g'
           \<and> length (g_tests g') = length (g_tests g) + 2"
    by (simp add: comparisonStmt_def makeComparisonReadTest_def addReadTest_def)
qed

lemma adds_standaloneStmt:
  assumes "totalOps (opsOf fl)" and "\<exists>dg. genOf fl = Inr dg"
  shows "adds (Suc 0) (standaloneStmt accepts nm fl fieldsToIndex opsOf genOf)"
  unfolding adds_def
proof
  fix g :: globals
  from assms(1) obtain l r' where "opsOf fl (g_random g) = Inr (l, r')"
    unfolding totalOps_def by blast
  moreover from assms(2) obtain dg where "genOf fl = Inr dg" ..
  ultimately show "\<exists>g'. standaloneStmt accepts nm fl fieldsToIndex opsOf genOf g = Inr g'
           \<and> length (g_tests g') = length (g_tests g) + Suc 0"
    by (simp add: standaloneStmt_def makeStandaloneReadTest_def addReadTest_def)
qed

lemma adds_comparisonStmt_sib:
  assumes "totalOps (opsOf fl)" and "\<exists>dg. genOf fl = Inr dg"
  shows "adds 2 (comparisonStmt_sib accepts nm fl fieldsToIndex opsOf genOf)"
  unfolding adds_def
proof
  fix g :: globals
  from assms(1) obtain l r' where "opsOf fl (g_random g) = Inr (l, r')"
    unfolding totalOps_def by blast
  moreover from assms(2) obtain dg where "genOf fl = Inr dg" ..
  ultimately show "\<exists>g'. comparisonStmt_sib accepts nm fl fieldsToIndex opsOf genOf g = Inr g'
           \<and> length (g_tests g') = length (g_tests g) + 2"
    by (simp add: comparisonStmt_sib_def makeComparisonReadTest_sib_def addTest_def)
qed

lemma adds_standaloneStmt_sib:
  assumes "totalOps (opsOf fl)" and "\<exists>dg. genOf fl = Inr dg"
  shows "adds (Suc 0) (standaloneStmt_sib accepts nm fl fieldsToIndex opsOf genOf)"
  unfolding adds_def
proof
  fix g :: globals
  from assms(1) obtain l r' where "opsOf fl (g_random g) = Inr (l, r')"
    unfolding totalOps_def by blast
  moreover from assms(2) obtain dg where "genOf fl = Inr dg" ..
  ultimately show "\<exists>g'. standaloneStmt_sib accepts nm fl fieldsToIndex opsOf genOf g = Inr g'
           \<and> length (g_tests g') = length (g_tests g) + Suc 0"
    by (simp add: standaloneStmt_sib_def makeStandaloneReadTest_sib_def addTest_def)
qed

lemma adds_seedStmt: "adds 0 seedStmt"
  by (simp add: adds_def seedStmt_def)

lemmas generator_builders =
  getMultiFieldPathToIntegerDocumentGenerator_def getTopLevelArrayMultiFieldDocumentGenerator_def
  getTopLevelArraySingleFieldPerDocumentGenerator_def getDocumentGenerator_def
  getTopLevelArrayDocumentGenerator_def getTopLevelArraySingleFieldPerDocumentGenerator_sib_def

lemmas stmt_adds =
  adds_comparisonStmt adds_standaloneStmt adds_comparisonStmt_sib adds_standaloneStmt_sib
  adds_seedStmt totalOps_point totalOps_range totalOps_rangeSort totalOps_range_sib
  totalOps_rangeSort_sib totalOps_twoPoint length_getNFieldNames
  length_getNFieldNamesAtGivenDepth getNFieldNames_Nil_iff getNFieldNamesAtGivenDepth_Nil_iff

lemma script_adds:
  "list_all2 adds [1, 1, 2, 2, 2, 2, 2, 2, 2, 2, 2, 2, 2, 2] (script gen accepts)"
  unfolding script_def by (simp add: stmt_adds generator_builders)

lemma script_sib_adds:
  "list_all2 adds [0, 1, 2, 2, 2, 2, 2, 2, 2, 2, 2, 2, 2, 2, 2, 2, 2, 2, 2, 2, 2, 2, 2, 2]
     (script_sib gen accepts)"
  unfolding script_sib_def by (simp add: stmt_adds generator_builders)

lemma build_succeeds:
  "\<exists>g. build gen accepts tests0 r = Inr g \<and> length (g_tests g) = length (initTests tests0) + 26"
  using foldE_adds [OF script_adds, of gen accepts
      "\<lparr>g_tests = initTests tests0, g_random = r, g_fieldList = []\<rparr>"]
  by (simp add: build_def)

lemma build_sib_succeeds:
  "\<exists>g. build_sib gen accepts tests0 r = Inr g \<and> length (g_tests g) = length (initTests tests0) + 45"
  using foldE_adds [OF script_sib_adds, of gen accepts
      "\<lparr>g_tests = initTests tests0, g_random = r, g_fieldList = []\<rparr>"]
  by (simp add: build_sib_def)


lemma foldE_keeps:
  "\<forall>stmt \<in> set stmts. keeps stmt \<Longrightarrow> sameRegistry g1 g2 \<Longrightarrow>
     rel_sum (=) sameRegistry (foldE (\<lambda>stmt g. stmt g) stmts g1) (foldE (\<lambda>stmt g. stmt g) stmts g2)"
proof (induction stmts arbitrary: g1 g2)
  case Nil
  then show ?case by simp
next
  case (Cons stmt stmts)
  from Cons.prems have r: "rel_sum (=) sameRegistry (stmt g1) (stmt g2)"
    by (simp add: keeps_def)
  show ?case
  proof (cases "stmt g1")
    case (Inl e)
    with r show ?thesis by (cases "stmt g2") simp_all
  next
    case (Inr a)
    with r obtain b where b: "stmt g2 = Inr b" "sameRegistry a b"
      by (cases "stmt g2") simp_all
    with Inr Cons.IH [of a b] Cons.prems(1) show ?thesis by simp
  qed
qed

lemma streamFree_point: "streamFree (pointOps m fl)"
  by (simp add: streamFree_def pointOps_def)

lemma streamFree_twoPoint: "streamFree (twoPointOps fl)"
  by (simp add: streamFree_def twoPointOps_def split: sum.splits)

lemma streamFree_range: "streamFree (rangeOps gen fl)"
  by (simp add: streamFree_def rangeOps_def getRangeQueryList_def setRandomSeed_def)

lemma streamFree_rangeSort: "streamFree (rangeSortOps gen fl)"
  by (simp add: streamFree_def rangeSortOps_def getRangeSortQueryList_def setRandomSeed_def)

lemma keeps_comparisonStmt:
  assumes "streamFree (opsOf fl)"
  shows "keeps (comparisonStmt accepts nm fl fieldsToIndex opsOf genOf)"
  unfolding keeps_def
proof (intro allI impI)
  fix g1 g2 :: globals
  assume s: "sameRegistry g1 g2"
  from assms have e: "map_sum id fst (opsOf fl (g_random g1)) = map_sum id fst (opsOf fl (g_random g2))"
    unfolding streamFree_def by blast
  show "rel_sum (=) sameRegistry (comparisonStmt accepts nm fl fieldsToIndex opsOf genOf g1)
          (comparisonStmt accepts nm fl fieldsToIndex opsOf genOf g2)"
    using e s
    by (cases "opsOf fl (g_random g1)"; cases "opsOf fl (g_random g2)"; cases "genOf fl")
      (auto simp: comparisonStmt_def sameRegistry_def)
qed

lemma keeps_standaloneStmt:
  assumes "streamFree (opsOf fl)"
  shows "keeps (standaloneStmt accepts nm fl fieldsToIndex opsOf genOf)"
  unfolding keeps_def
proof (intro allI impI)
  fix g1 g2 :: globals
  assume s: "sameRegistry g1 g2"
  from assms have e: "map_sum id fst (opsOf fl (g_random g1)) = map_sum id fst (opsOf fl (g_random g2))"
    unfolding streamFree_def by blast
  show "rel_sum (=) sameRegistry (standaloneStmt accepts nm fl fieldsToIndex opsOf genOf g1)
          (standaloneStmt accepts nm fl fieldsToIndex opsOf genOf g2)"
    using e s
    by (cases "opsOf fl (g_random g1)"; cases "opsOf fl (g_random g2)"; cases "genOf fl")
      (auto simp: standaloneStmt_def sameRegistry_def)
qed

lemma script_keeps: "\<forall>stmt \<in> set (script gen accepts). keeps stmt"
  unfolding script_def
  by (simp add: keeps_comparisonStmt keeps_standaloneStmt streamFree_point streamFree_twoPoint
      streamFree_range streamFree_rangeSort)

lemma build_registry_independent_of_stream:
  "\<exists>g1 g2. build gen accepts tests0 r1 = Inr g1 \<and> build gen accepts tests0 r2 = Inr g2
           \<and> g_tests g1 = g_tests g2"
proof -
  obtain g1 where g1: "build gen accepts tests0 r1 = Inr g1" using build_succeeds by blast
  obtain g2 where g2: "build gen accepts tests0 r2 = Inr g2" using build_succeeds by blast
  have "sameRegistry \<lparr>g_tests = initTests tests0, g_random = r1, g_fieldList = []\<rparr>
          \<lparr>g_tests = initTests tests0, g_random = r2, g_fieldList = []\<rparr>"
    by (simp add: sameRegistry_def)
  from foldE_keeps [OF script_keeps this, of gen accepts] g1 g2
  have "sameRegistry g1 g2" by (simp add: build_def)
  with g1 g2 show ?thesis by (simp add: sameRegistry_def)
qed

lemma script_sib_seeds_first: "script_sib gen accepts = seedStmt # tl (script_sib gen accepts)"
  by (simp add: script_sib_def)

lemma build_sib_independent_of_stream:
  "build_sib gen accepts tests0 r1 = build_sib gen accepts tests0 r2"
  unfolding build_sib_def
  by (subst (1 2) script_sib_seeds_first) (simp add: seedStmt_def setRandomSeed_def)

text \<open>
  C2, as the code has it. In the sibling script the seed is set once, by the first
  statement, and its range builders only draw, each going on where the stream stands.
  In wildcard_index_query.js every call of a range builder sets the seed 11010 again
  before drawing, so its list is the list drawn from the head of the stream. In both
  scripts the build succeeds and registers the same test cases, query lists included,
  whatever the state of the stream before the run.
\<close>

theorem seeded_stream_reproducible:
  "snd (getRangeQueryList_sib gen fieldList n st) = st\<lparr>rdrawn := rdrawn st + length fieldList\<rparr>
   \<and> snd (getRangeSortQueryList_sib gen fieldList n st) = st\<lparr>rdrawn := rdrawn st + length fieldList\<rparr>
   \<and> getRangeQueryList gen fieldList n st
       = getRangeQueryList_sib gen fieldList n \<lparr>rseed = 11010, rdrawn = 0\<rparr>
   \<and> getRangeSortQueryList gen fieldList n st
       = getRangeSortQueryList_sib gen fieldList n \<lparr>rseed = 11010, rdrawn = 0\<rparr>
   \<and> build_sib gen accepts tests0 r1 = build_sib gen accepts tests0 r2
   \<and> (\<exists>g. build_sib gen accepts tests0 r1 = Inr g)
   \<and> (\<exists>g1 g2. build gen accepts tests0 r1 = Inr g1 \<and> build gen accepts tests0 r2 = Inr g2
          \<and> g_tests g1 = g_tests g2)"
proof (intro conjI)
  show "snd (getRangeQueryList_sib gen fieldList n st) = st\<lparr>rdrawn := rdrawn st + length fieldList\<rparr>"
    by (simp add: getRangeQueryList_sib_def rangeQueries_closed_form)
  show "snd (getRangeSortQueryList_sib gen fieldList n st) = st\<lparr>rdrawn := rdrawn st + length fieldList\<rparr>"
    by (simp add: getRangeSortQueryList_sib_def rangeSortQueries_closed_form)
  show "getRangeQueryList gen fieldList n st
       = getRangeQueryList_sib gen fieldList n \<lparr>rseed = 11010, rdrawn = 0\<rparr>"
    by (simp add: getRangeQueryList_def getRangeQueryList_sib_def setRandomSeed_def)
  show "getRangeSortQueryList gen fieldList n st
       = getRangeSortQueryList_sib gen fieldList n \<lparr>rseed = 11010, rdrawn = 0\<rparr>"
    by (simp add: getRangeSortQueryList_def getRangeSortQueryList_sib_def setRandomSeed_def)
  show "build_sib gen accepts tests0 r1 = build_sib gen accepts tests0 r2"
    by (rule build_sib_independent_of_stream)
  show "\<exists>g. build_sib gen accepts tests0 r1 = Inr g"
    using build_sib_succeeds [of gen accepts tests0 r1] by blast
  show "\<exists>g1 g2. build gen accepts tests0 r1 = Inr g1 \<and> build gen accepts tests0 r2 = Inr g2
          \<and> g_tests g1 = g_tests g2"
    by (rule build_registry_independent_of_stream)
qed

text \<open>
  The claim as stated fails on wildcard_index_query.js. With the stream seeded by 11010
  and three numbers already drawn, \<^verbatim>\<open>getRangeQueryList(["field-0"], 100)\<close> leaves the
  stream at position 1, not 4, and its query uses the draw of position 0, which for the
  stand-in generator is not the draw of position 3: the builder has set the seed again.
\<close>

theorem range_builder_reseeds_counterexample:
  "snd (getRangeQueryList sampleGen [''field-0''] 100 \<lparr>rseed = 11010, rdrawn = 3\<rparr>)
     = \<lparr>rseed = 11010, rdrawn = 1\<rparr>
   \<and> snd (getRangeQueryList sampleGen [''field-0''] 100 \<lparr>rseed = 11010, rdrawn = 3\<rparr>)
     \<noteq> \<lparr>rseed = 11010, rdrawn = 4\<rparr>
   \<and> fst (getRangeQueryList sampleGen [''field-0''] 100 \<lparr>rseed = 11010, rdrawn = 3\<rparr>)
     = [findOp (rangePredicate ''field-0'' (sampleGen 11010 0 90))]
   \<and> sampleGen 11010 0 90 \<noteq> sampleGen 11010 3 90"
  by (simp add: getRangeQueryList_def setRandomSeed_def randInt_def sampleGen_def js_sub_def
      round53_exact)

end
